theory Spec2Isabelle
  imports Main
begin

section \<open>Python values used by \<open>JDD_scheduler.py\<close>\<close>

text \<open>
  A Python \<open>str\<close> is a sequence of Unicode code points, and \<open>len\<close>, \<open>in\<close> and the format
  widths count code points. The script's own literals use code points above 255 (the en dash
  8211 of the console summary, the em dash 8212 of the break captions), so a string is modelled
  as the list of its code points. \<open>lit\<close> reads an ASCII literal; the backslash cannot be
  written inside a HOL string literal and is spliced in as \<open>bs\<close>.
\<close>

type_synonym pystr = "nat list"

definition lit :: "string \<Rightarrow> pystr" where
  "lit s = map of_char s"

definition bs :: pystr where
  "bs = [92]"

text \<open>The exceptions the script can die with.\<close>

datatype error = IndexError | OverflowError | OSError | EOFError

subsection \<open>\<open>datetime\<close> and \<open>timedelta\<close>\<close>

text \<open>
  Every \<open>datetime\<close> of the script is a whole number of minutes: the constants come from
  \<open>strptime(..., "%H:%M")\<close>, which yields a time on 1900-01-01, and only
  \<open>timedelta(minutes=...)\<close> of an \<open>int\<close> is ever added. A \<open>datetime\<close> is modelled as the
  number of minutes since 1900-01-01 00:00. \<open>datetime\<close> covers the years 1 to 9999
  (1900-01-01 has ordinal 693596, 9999-12-31 has ordinal 3652059) and \<open>timedelta\<close> at most
  999999999 days in magnitude; outside, Python raises \<open>OverflowError\<close>.
\<close>

type_synonym datetime = int

definition DT_MIN :: datetime where
  "DT_MIN = - (693595 * 1440)"

definition DT_MAX :: datetime where
  "DT_MAX = 2958463 * 1440 + 1439"

definition timedelta_minutes :: "int \<Rightarrow> error + int" where
  "timedelta_minutes m =
     (if - (999999999 * 1440) \<le> m \<and> m < 1000000000 * 1440 then Inr m else Inl OverflowError)"

definition dt_add :: "datetime \<Rightarrow> int \<Rightarrow> error + datetime" where
  "dt_add t m =
     (case timedelta_minutes m of
        Inl e \<Rightarrow> Inl e
      | Inr d \<Rightarrow> if DT_MIN \<le> t + d \<and> t + d \<le> DT_MAX then Inr (t + d) else Inl OverflowError)"

definition strptime_HM :: "int \<Rightarrow> int \<Rightarrow> datetime" where
  "strptime_HM h m = h * 60 + m"

text \<open>\<open>strftime('%H')\<close> and \<open>strftime('%M')\<close>: two decimal digits, zero padded.\<close>

definition digit :: "nat \<Rightarrow> nat" where
  "digit d = 48 + d"

definition two_digits :: "nat \<Rightarrow> pystr" where
  "two_digits n = [digit (n div 10), digit (n mod 10)]"

definition hour_of :: "datetime \<Rightarrow> nat" where
  "hour_of t = nat ((t div 60) mod 24)"

definition minute_of :: "datetime \<Rightarrow> nat" where
  "minute_of t = nat (t mod 60)"

definition strftime_H :: "datetime \<Rightarrow> pystr" where
  "strftime_H t = two_digits (hour_of t)"

definition strftime_M :: "datetime \<Rightarrow> pystr" where
  "strftime_M t = two_digits (minute_of t)"

definition strftime_HM :: "datetime \<Rightarrow> pystr" where
  "strftime_HM t = strftime_H t @ lit '':'' @ strftime_M t"

subsection \<open>Strings\<close>

text \<open>\<open>needle in hay\<close> on strings: \<open>needle\<close> occurs as a contiguous run.\<close>

fun py_in :: "pystr \<Rightarrow> pystr \<Rightarrow> bool" where
  "py_in needle [] = (needle = [])"
| "py_in needle (c # cs) = (take (length needle) (c # cs) = needle \<or> py_in needle cs)"

text \<open>\<open>"\n".join(parts)\<close>.\<close>

fun join_nl :: "pystr list \<Rightarrow> pystr" where
  "join_nl [] = []"
| "join_nl [p] = p"
| "join_nl (p # q # ps) = p @ [10] @ join_nl (q # ps)"

text \<open>\<open>str(n)\<close> for an \<open>int\<close>, and the format specifications \<open>:3d\<close> and \<open>:20s\<close>.\<close>

fun nat_digits :: "nat \<Rightarrow> pystr" where
  "nat_digits n = (if n < 10 then [digit n] else nat_digits (n div 10) @ [digit (n mod 10)])"

declare nat_digits.simps [simp del]

definition str_int :: "int \<Rightarrow> pystr" where
  "str_int i = (if i < 0 then lit ''-'' @ nat_digits (nat (- i)) else nat_digits (nat i))"

definition rjust :: "nat \<Rightarrow> pystr \<Rightarrow> pystr" where
  "rjust w s = replicate (w - length s) 32 @ s"

definition ljust :: "nat \<Rightarrow> pystr \<Rightarrow> pystr" where
  "ljust w s = s @ replicate (w - length s) 32"

definition format_3d :: "int \<Rightarrow> pystr" where
  "format_3d i = rjust 3 (str_int i)"

definition format_20s :: "pystr \<Rightarrow> pystr" where
  "format_20s s = ljust 20 s"

section \<open>The data\<close>

text \<open>
  One row of the table read from the CSV file; the \<open>ID\<close> column the script inserts is the
  row's position, which is also what \<open>df.iloc\<close> addresses.
\<close>

record talk_record =
  FIRSTNAME :: pystr
  LASTNAME :: pystr
  TITLE :: pystr
  TIME :: int
  ONLINE :: int

text \<open>One dictionary of the \<open>schedule\<close> list.\<close>

record entry =
  Speaker :: pystr
  Title :: pystr
  Start :: datetime
  End :: datetime
  ID :: int
  Online :: int

text \<open>
  \<open>df.iloc[idx]\<close>: a position; a negative one counts from the end, one outside the table
  raises \<open>IndexError\<close>.
\<close>

definition iloc :: "'a list \<Rightarrow> int \<Rightarrow> error + 'a" where
  "iloc df idx =
     (let n = int (length df); j = (if idx < 0 then n + idx else idx)
      in if 0 \<le> j \<and> j < n then Inr (df ! nat j) else Inl IndexError)"

section \<open>The scheduler\<close>

definition START_TIME :: datetime where
  "START_TIME = strptime_HM 9 25"

definition LUNCH_START :: datetime where
  "LUNCH_START = strptime_HM 12 0"

definition LUNCH_END :: datetime where
  "LUNCH_END = strptime_HM 14 0"

definition COFFEE_START :: datetime where
  "COFFEE_START = strptime_HM 15 40"

definition COFFEE_END :: datetime where
  "COFFEE_END = strptime_HM 16 0"

definition lunch_break :: entry where
  "lunch_break =
     \<lparr>Speaker = lit ''--- Lunch Break ---'', Title = [], Start = LUNCH_START,
      End = LUNCH_END, ID = - 1, Online = - 1\<rparr>"

definition coffee_break :: entry where
  "coffee_break =
     \<lparr>Speaker = lit ''--- Coffee Break ---'', Title = [], Start = COFFEE_START,
      End = COFFEE_END, ID = - 1, Online = - 1\<rparr>"

definition talk_entry :: "talk_record \<Rightarrow> int \<Rightarrow> datetime \<Rightarrow> datetime \<Rightarrow> entry" where
  "talk_entry row idx current_time end_time =
     \<lparr>Speaker = FIRSTNAME row @ lit '' '' @ LASTNAME row, Title = TITLE row,
      Start = current_time, End = end_time, ID = idx, Online = ONLINE row\<rparr>"

text \<open>
  The two \<open>if\<close> blocks of the loop body, on the variables \<open>schedule\<close>, \<open>current_time\<close> and
  \<open>end_time\<close>. The break is appended before \<open>end_time\<close> is computed again, and that
  addition can raise.
\<close>

definition handle_lunch ::
  "int \<Rightarrow> entry list \<times> datetime \<times> datetime \<Rightarrow> error + entry list \<times> datetime \<times> datetime" where
  "handle_lunch duration st =
     (case st of (schedule, current_time, end_time) \<Rightarrow>
        if current_time \<le> LUNCH_START \<and> end_time > LUNCH_START then
          (case dt_add LUNCH_END duration of
             Inl e \<Rightarrow> Inl e
           | Inr end_time' \<Rightarrow> Inr (schedule @ [lunch_break], LUNCH_END, end_time'))
        else Inr st)"

definition handle_coffee ::
  "int \<Rightarrow> entry list \<times> datetime \<times> datetime \<Rightarrow> error + entry list \<times> datetime \<times> datetime" where
  "handle_coffee duration st =
     (case st of (schedule, current_time, end_time) \<Rightarrow>
        if current_time \<le> COFFEE_START \<and> end_time > COFFEE_START then
          (case dt_add COFFEE_END duration of
             Inl e \<Rightarrow> Inl e
           | Inr end_time' \<Rightarrow> Inr (schedule @ [coffee_break], COFFEE_END, end_time'))
        else Inr st)"

text \<open>One iteration of \<open>for idx in order\<close>, on the pair \<open>(schedule, current_time)\<close>.\<close>

definition schedule_step ::
  "talk_record list \<Rightarrow> entry list \<times> datetime \<Rightarrow> int \<Rightarrow> error + entry list \<times> datetime" where
  "schedule_step df st idx =
     (case st of (schedule, current_time) \<Rightarrow>
      case iloc df idx of
        Inl e \<Rightarrow> Inl e
      | Inr row \<Rightarrow>
         (let duration = TIME row + 10 in
          case dt_add current_time duration of
            Inl e \<Rightarrow> Inl e
          | Inr end_time \<Rightarrow>
             (case handle_lunch duration (schedule, current_time, end_time) of
                Inl e \<Rightarrow> Inl e
              | Inr st1 \<Rightarrow>
                 (case handle_coffee duration st1 of
                    Inl e \<Rightarrow> Inl e
                  | Inr (schedule2, current_time2, end_time2) \<Rightarrow>
                      Inr (schedule2 @ [talk_entry row idx current_time2 end_time2],
                           end_time2)))))"

fun schedule_loop ::
  "talk_record list \<Rightarrow> entry list \<times> datetime \<Rightarrow> int list \<Rightarrow> error + entry list \<times> datetime" where
  "schedule_loop df st [] = Inr st"
| "schedule_loop df st (idx # order) =
     (case schedule_step df st idx of
        Inl e \<Rightarrow> Inl e
      | Inr st' \<Rightarrow> schedule_loop df st' order)"

text \<open>Lines 173 to 215: the schedule the script holds when the loop is over.\<close>

definition build_schedule :: "talk_record list \<Rightarrow> int list \<Rightarrow> error + entry list" where
  "build_schedule df order =
     (case schedule_loop df ([], START_TIME) order of
        Inl e \<Rightarrow> Inl e
      | Inr (schedule, current_time) \<Rightarrow> Inr schedule)"

section \<open>The renderer \<open>generate_jdd_latex\<close>\<close>

text \<open>\<open>unlines\<close> writes a text given line by line, each line closed by a newline.\<close>

definition unlines :: "pystr list \<Rightarrow> pystr" where
  "unlines ls = concat (map (\<lambda>l. l @ [10]) ls)"

text \<open>The static document header and footer (the two raw string literals), line by line.\<close>

definition header :: pystr where
  "header = unlines
    [lit ''% JDD Generator'',
     lit ''% 11/2025: v0.0: Erwan ZAMORA MEDINA '',
     lit ''% 11/2025: v0.1: Simon KERN'',
     lit ''%'',
     bs @ lit ''documentclass[11pt,a4paper]{article}'',
     lit ''% --- Encoding & language ---'',
     bs @ lit ''usepackage[T1]{fontenc}'',
     bs @ lit ''usepackage[utf8]{inputenc}'',
     bs @ lit ''usepackage[french]{babel}'',
     bs @ lit ''usepackage{lmodern}'',
     bs @ lit ''usepackage{microtype}'',
     bs @ lit ''usepackage[a4paper,margin=20mm]{geometry}'',
     bs @ lit ''usepackage{xcolor}'',
     lit ''% RED HESAM/CNAM FOR M2N'',
     bs @ lit ''definecolor{redHESAM}{RGB}{210,0,37}'',
     bs @ lit ''definecolor{brand}{HTML}{0B7BD0} '',
     bs @ lit ''definecolor{brandlight}{HTML}{EAF4FC}'',
     bs @ lit ''definecolor{accent}{HTML}{FF7A59} '',
     lit ''%%%%%%%%%%%%%%%%%%%%%%%%%%%%%%%%%%%%%%%%%%%%'',
     lit ''%--- Typography & rules ---'',
     bs @ lit ''usepackage{titlesec}'',
     bs @ lit ''titleformat{'' @ bs @ lit ''section}'',
     lit ''  {'' @ bs @ lit ''Large'' @ bs @ lit ''bfseries'' @ bs @ lit ''color{brand}}'',
     lit ''  {'' @ bs @ lit ''thesection}{1em}{}'',
     bs @ lit ''titleformat{'' @ bs @ lit ''subsection}'',
     lit ''  {'' @ bs @ lit ''large'' @ bs @ lit ''bfseries'' @ bs @ lit ''color{brand}}'',
     lit ''  {'' @ bs @ lit ''thesubsection}{1em}{}'',
     bs @ lit ''usepackage{enumitem}'',
     bs @ lit ''setlist[itemize]{label='' @ bs @ lit ''textbullet, leftmargin=1.2em}'',
     lit ''%% Beautiful color box :)'',
     bs @ lit ''usepackage{tcolorbox}'',
     bs @ lit ''tcbuselibrary{skins,breakable}'',
     bs @ lit ''usepackage{tabularx}'',
     bs @ lit ''usepackage{booktabs}'',
     bs @ lit ''usepackage{array}'',
     lit ''%%%%%%%%%%%%%%%%%%%%%%%%%%%%%%%%%%%%%%%%%%%%'',
     lit ''% --- Logos & header ---'',
     bs @ lit ''usepackage{graphicx}'',
     bs @ lit ''usepackage{fancyhdr}'',
     bs @ lit ''graphicspath{{./} {../} {./logos/}} %Repertoire des images'',
     bs @ lit ''newlength'' @ bs @ lit ''logoh'',
     bs @ lit ''setlength{'' @ bs @ lit ''logoh}{12mm} % logo height (adjust as needed)'',
     bs @ lit ''newcommand{'' @ bs @ lit ''LeftLogo}{}'',
     bs @ lit ''newcommand{'' @ bs @ lit ''RightLogo}{}'',
     bs @ lit ''newcommand{'' @ bs @ lit ''setlogos}[2]{'' @ bs @ lit ''renewcommand{'' @ bs
      @ lit ''LeftLogo}{#1}'' @ bs @ lit ''renewcommand{'' @ bs @ lit ''RightLogo}{#2}}'',
     bs @ lit ''pagestyle{fancy}'',
     bs @ lit ''fancyhf{}'',
     bs @ lit ''renewcommand{'' @ bs @ lit ''headrulewidth}{0pt}'',
     bs @ lit ''setlength{'' @ bs @ lit ''headheight}{18mm} % must be >= logo height'',
     bs @ lit ''setlength{'' @ bs @ lit ''headsep}{1mm}'',
     bs @ lit ''lhead{'' @ bs @ lit ''ifx'' @ bs @ lit ''LeftLogo'' @ bs @ lit ''empty'' @ bs
      @ lit ''relax'' @ bs @ lit ''else'' @ bs @ lit ''includegraphics[height='' @ bs
      @ lit ''logoh]{'' @ bs @ lit ''LeftLogo}'' @ bs @ lit ''fi}'',
     bs @ lit ''rhead{'' @ bs @ lit ''ifx'' @ bs @ lit ''RightLogo'' @ bs @ lit ''empty'' @ bs
      @ lit ''relax'' @ bs @ lit ''else'' @ bs @ lit ''includegraphics[height='' @ bs
      @ lit ''logoh]{'' @ bs @ lit ''RightLogo}'' @ bs @ lit ''fi}'',
     lit ''%%%%%%%%%%%%%%%%%%%%%%%%%%%%%%%%%%%%%%%%%%%%'',
     lit ''% Define template boxes s...'',
     bs
      @ lit ''newtcolorbox{eventheader}[1][]{enhanced, colback=brandlight, colframe=brand, boxrule=0.7pt, arc=2mm, left=3mm, right=3mm, top=3mm, bottom=3mm, before skip=6pt, after skip=10pt, breakable, #1}'',
     bs
      @ lit ''newtcolorbox{separatorbox}[1][]{enhanced, colback=brand!6, colframe=brand!40, boxrule=0.5pt, arc=1.6mm, fontupper=''
      @ bs
      @ lit ''bfseries, left=4mm,right=4mm,top=2.5mm,bottom=2.5mm, before skip=6pt, after skip=6pt, before upper=''
      @ bs @ lit ''centering, #1}'',
     bs @ lit ''renewcommand{'' @ bs @ lit ''titleline}{'' @ bs @ lit ''par'' @ bs
      @ lit ''vspace{2mm}'' @ bs @ lit ''noindent'' @ bs @ lit ''color{brand}'' @ bs
      @ lit ''rule{'' @ bs @ lit ''linewidth}{0.9pt}'' @ bs @ lit ''par'' @ bs
      @ lit ''vspace{1mm}}'',
     bs @ lit ''newcolumntype{L}{>{'' @ bs @ lit ''raggedright'' @ bs
      @ lit ''arraybackslash}X}'',
     bs @ lit ''newcommand{'' @ bs @ lit ''talk}[4]{'' @ bs @ lit ''textbf{#1:#2} & '' @ bs
      @ lit ''textbf{#3} & '' @ bs @ lit ''emph{'' @ bs @ lit ''og #4 '' @ bs @ lit ''fg}'' @ bs
      @ bs @ lit ''}'',
     bs @ lit ''newcommand{'' @ bs @ lit ''onlinetalk}[4]{'' @ bs @ lit ''textbf{#1:#2} & ''
      @ bs @ lit ''textbf{#3} & '' @ bs @ lit ''emph{'' @ bs @ lit ''og #4 '' @ bs
      @ lit ''fg} '' @ bs @ lit ''textbf{(online)}'' @ bs @ bs @ lit ''}'',
     lit ''%%%%%%%%%%%%%%%%%%%%%%%%%%%%%%%%%%%%%%%%%%%%'',
     bs @ lit ''newcommand{'' @ bs @ lit ''EventTitle}{Journ'' @ [233]
      @ lit ''e des doctorants '' @ bs @ lit ''the'' @ bs @ lit ''year'' @ bs @ lit '', '' @ bs
      @ lit ''textendash'' @ bs @ lit '', Planning}'',
     bs @ lit ''newcommand{'' @ bs
      @ lit ''EventDate}{Lundi 17~novembre~2025} % change as needed'',
     bs @ lit ''newcommand{'' @ bs
      @ lit ''EventOrg}{DynFluid}                % change as needed'',
     bs @ lit ''newcommand{'' @ bs
      @ lit ''EventPlace}{Amphi Pinel}           % change as needed'',
     lit ''%%%%%%%%%%%%%%%%%%%%%%%%%%%%%%%%%%%%%%%%%%%%'',
     bs @ lit ''begin{document}'',
     bs @ lit ''setlogos{logos/dynfluid_980.png}{logos/m2n_1.png}'',
     bs @ lit ''sffamily'',
     [],
     lit ''% Title'',
     lit ''{'' @ bs @ lit ''huge'' @ bs @ lit ''bfseries'' @ bs @ lit ''color{redHESAM} '' @ bs
      @ lit ''EventTitle'' @ bs @ lit ''par}'',
     bs @ lit ''vspace*{-3mm}'',
     bs @ lit ''titleline'',
     lit ''{'' @ bs @ lit ''large '' @ bs @ lit ''EventDate '' @ bs @ lit ''quad'' @ bs
      @ lit ''textcolor{brand}{'' @ bs @ lit ''textbullet}'' @ bs @ lit ''quad '' @ bs
      @ lit ''EventPlace'' @ bs @ lit ''par}'',
     [],
     lit ''% Header info'',
     bs @ lit ''begin{eventheader}'',
     bs @ lit ''begin{itemize}[nosep]'',
     lit ''  '' @ bs @ lit ''item '' @ bs @ lit ''textbf{Accueil '' @ bs
      @ lit ''EventOrg :} Caf'' @ [233] @ lit '' '' @ [8212] @ lit '' '' @ [224]
      @ lit '' partir de '' @ bs @ lit ''textbf{9'' @ bs @ lit '',h'' @ bs @ lit '',00}'',
     lit ''  '' @ bs @ lit ''item '' @ bs @ lit ''textbf{D'' @ [233]
      @ lit ''marrage Teams :} '' @ bs @ lit ''EventPlace{} '' @ [8212] @ lit '' '' @ bs
      @ lit ''textbf{9'' @ bs @ lit '',h'' @ bs @ lit '',25}'',
     bs @ lit ''end{itemize}'',
     bs @ lit ''end{eventheader}'',
     bs @ lit ''renewcommand{'' @ bs @ lit ''arraystretch}{1.2}'']"

definition footer :: pystr where
  "footer = [10] @ unlines
    [bs @ lit ''begin{flushright}'',
     bs @ lit ''small '' @ bs
      @ lit ''textcolor{redHESAM!70}{Content coordinator: J. S. KERN. Artistic director: E. ZAMORA-MEDINA. ''
      @ bs @ lit ''today}'',
     bs @ lit ''end{flushright}'',
     bs @ lit ''end{document}'']"

text \<open>
  The f-string that opens a \<open>tabularx\<close> block; the function appends it once before the loop
  and once more for every lunch entry.
\<close>

definition begin_tabularx :: "pystr \<Rightarrow> pystr \<Rightarrow> pystr" where
  "begin_tabularx time_col_width speaker_col_width =
     bs @ lit ''begin{tabularx}{'' @ bs @ lit ''linewidth}{@'' @ lit ''{}>{'' @ bs
     @ lit ''bfseries}p{'' @ time_col_width @ lit ''} >{'' @ bs @ lit ''raggedright'' @ bs
     @ lit ''arraybackslash}p{'' @ speaker_col_width @ lit ''} X@'' @ lit ''{}}''"

text \<open>
  The start and end of an entry as the two break captions print them: hour, \<open>\,h\,\<close>, minute,
  an em dash between the two times.
\<close>

definition caption_times :: "entry \<Rightarrow> pystr" where
  "caption_times s =
     lit '' '' @ strftime_H (Start s) @ bs @ lit '',h'' @ bs @ lit '','' @ strftime_M (Start s)
     @ lit '' '' @ [8212] @ lit '' '' @ strftime_H (End s) @ bs @ lit '',h'' @ bs @ lit '',''
     @ strftime_M (End s) @ lit '' ''"

definition lunch_fragments :: "pystr \<Rightarrow> pystr \<Rightarrow> entry \<Rightarrow> pystr list" where
  "lunch_fragments time_col_width speaker_col_width s =
     [bs @ lit ''bottomrule'' @ bs @ bs @ lit ''[-6mm]'',
      bs @ lit ''end{tabularx}'' @ [10],
      bs @ lit ''begin{separatorbox}[colback=accent!10,colframe=accent!50]'',
      caption_times s @ bs @ lit ''quad Pause d'' @ [233] @ lit ''jeuner'',
      bs @ lit ''end{separatorbox}'' @ [10],
      bs @ lit ''noindent'' @ bs @ lit ''textbf{Apr'' @ [232] @ lit ''s-midi}'' @ bs @ lit ''par''
        @ bs @ lit ''smallskip'',
      begin_tabularx time_col_width speaker_col_width,
      bs @ lit ''toprule'']"

definition coffee_fragments :: "entry \<Rightarrow> pystr list" where
  "coffee_fragments s =
     [bs @ lit ''multicolumn{3}{@'' @ lit ''{}l@'' @ lit ''{}}{'' @ bs
        @ lit ''begin{separatorbox}[colback=brand!6,colframe=brand!30]'',
      caption_times s @ bs @ lit ''quad Pause caf'' @ [233],
      bs @ lit ''end{separatorbox}}'' @ bs @ bs @ lit ''[2mm]'']"

definition talk_fragments :: "entry \<Rightarrow> pystr list" where
  "talk_fragments s =
     (let ttype = (if Online s = 1 then lit ''onlinetalk'' else lit ''talk'')
      in [bs @ ttype @ lit ''{'' @ strftime_H (Start s) @ lit ''}{'' @ strftime_M (Start s)
            @ lit ''}{'' @ Speaker s @ lit ''}{'' @ Title s @ lit ''}''])"

text \<open>What one iteration of \<open>for s in schedule\<close> appends to the list \<open>latex\<close>.\<close>

definition entry_fragments :: "pystr \<Rightarrow> pystr \<Rightarrow> entry \<Rightarrow> pystr list" where
  "entry_fragments time_col_width speaker_col_width s =
     (if py_in (lit ''Lunch'') (Speaker s) then lunch_fragments time_col_width speaker_col_width s
      else if py_in (lit ''Coffee'') (Speaker s) then coffee_fragments s
      else talk_fragments s)"

text \<open>The list \<open>latex\<close> when the function joins it.\<close>

definition latex_lines :: "entry list \<Rightarrow> pystr \<Rightarrow> pystr \<Rightarrow> pystr list" where
  "latex_lines schedule time_col_width speaker_col_width =
     [lit ''%Schedule block'',
      bs @ lit ''begin{tcolorbox}[enhanced, breakable, colback=white, colframe=brand!50, boxrule=0.6pt, arc=2mm, left=3mm, right=3mm, top=2mm, bottom=2mm]''
        @ bs @ lit ''vspace{1mm}'',
      bs @ lit ''noindent'' @ bs @ lit ''textbf{Matin'' @ [233] @ lit ''e}'' @ bs @ lit ''par''
        @ bs @ lit ''smallskip'',
      begin_tabularx time_col_width speaker_col_width,
      bs @ lit ''toprule'']
     @ concat (map (entry_fragments time_col_width speaker_col_width) schedule)
     @ [bs @ lit ''bottomrule'' @ [10] @ bs @ lit ''end{tabularx}'' @ [10] @ bs
        @ lit ''vspace{1mm}'' @ [10] @ bs @ lit ''end{tcolorbox}'']"

definition full_tex :: "entry list \<Rightarrow> pystr \<Rightarrow> pystr \<Rightarrow> pystr" where
  "full_tex schedule time_col_width speaker_col_width =
     join_nl ([header] @ latex_lines schedule time_col_width speaker_col_width @ [footer])"

text \<open>
  The files on disk are a map from path to content. Whether \<open>open(filename, "w")\<close> succeeds
  is the environment's choice, the predicate \<open>writable\<close>; when it fails the function raises
  \<open>OSError\<close> and the disk is as before. \<open>if filename:\<close> is false for \<open>None\<close> and for the empty
  string. The function returns the text and leaves the disk changed or not.
\<close>

type_synonym disk = "pystr \<rightharpoonup> pystr"

definition generate_jdd_latex ::
  "(pystr \<Rightarrow> bool) \<Rightarrow> disk \<Rightarrow> entry list \<Rightarrow> pystr \<Rightarrow> pystr \<Rightarrow> pystr option
     \<Rightarrow> error + disk \<times> pystr" where
  "generate_jdd_latex writable fs schedule time_col_width speaker_col_width filename =
     (let tex = full_tex schedule time_col_width speaker_col_width in
      case filename of
        None \<Rightarrow> Inr (fs, tex)
      | Some f \<Rightarrow>
          if f = [] then Inr (fs, tex)
          else if writable f then Inr (fs(f \<mapsto> tex), tex)
          else Inl OSError)"

section \<open>The script: summary, confirmation, output\<close>

text \<open>The argument of the \<open>print\<close> call the summary loop makes for one entry.\<close>

definition summary_line :: "entry \<Rightarrow> pystr" where
  "summary_line s =
     (if py_in (lit ''Lunch'') (Speaker s) then
        [10] @ strftime_HM (Start s) @ [8211] @ strftime_HM (End s) @ lit ''   Lunch Break'' @ [10]
      else if py_in (lit ''Coffee'') (Speaker s) then
        [10] @ strftime_HM (Start s) @ [8211] @ strftime_HM (End s) @ lit ''   Coffee Break'' @ [10]
      else
        strftime_HM (Start s) @ [8211] @ strftime_HM (End s) @ lit '' '' @ format_3d (ID s)
        @ lit '' '' @ format_20s (Speaker s) @ lit '' '' @ Title s)"

text \<open>
  \<open>str.strip()\<close> removes the code points for which \<open>str.isspace\<close> holds from both ends.
  \<open>str.lower()\<close> follows the Unicode tables; the model lowers the letters A to Z and leaves
  every other code point as it is. The script only compares the result with \<open>"yes"\<close>, and no
  code point other than Y, E and S has a lower case form that holds y, e or s, so the
  comparison comes out the same.
\<close>

definition isspace :: "nat \<Rightarrow> bool" where
  "isspace c =
     ((9 \<le> c \<and> c \<le> 13) \<or> (28 \<le> c \<and> c \<le> 32) \<or> c = 133 \<or> c = 160 \<or> c = 5760
      \<or> (8192 \<le> c \<and> c \<le> 8202) \<or> c = 8232 \<or> c = 8233 \<or> c = 8239 \<or> c = 8287 \<or> c = 12288)"

definition strip :: "pystr \<Rightarrow> pystr" where
  "strip s = rev (dropWhile isspace (rev (dropWhile isspace s)))"

definition lower :: "pystr \<Rightarrow> pystr" where
  "lower s = map (\<lambda>c. if 65 \<le> c \<and> c \<le> 90 then c + 32 else c) s"

text \<open>
  What a run of the script leaves behind: the chunks written to standard output in order
  (\<open>print\<close> adds a newline, the prompt of \<open>input\<close> does not), the files on disk, and the exit
  code, 1 when an exception ends the run.
\<close>

record outcome =
  stdout :: "pystr list"
  files :: disk
  exit_code :: int

definition print_chunk :: "pystr \<Rightarrow> pystr" where
  "print_chunk x = x @ [10]"

definition summary_chunks :: "entry list \<Rightarrow> pystr list" where
  "summary_chunks schedule =
     print_chunk ([10] @ lit ''Generated Schedule:'')
     # map (\<lambda>s. print_chunk (summary_line s)) schedule"

text \<open>
  Lines 159 to 236 from the loaded table on. \<open>input_line\<close> is the line standard input
  delivers to \<open>input\<close>, \<open>None\<close> when it is at its end (\<open>EOFError\<close>).
\<close>

definition run_script ::
  "(pystr \<Rightarrow> bool) \<Rightarrow> disk \<Rightarrow> talk_record list \<Rightarrow> int list \<Rightarrow> pystr option \<Rightarrow> outcome" where
  "run_script writable fs df order input_line =
     (case build_schedule df order of
        Inl e \<Rightarrow> \<lparr>stdout = [], files = fs, exit_code = 1\<rparr>
      | Inr schedule \<Rightarrow>
         (let out = summary_chunks schedule
                      @ [[10] @ lit ''Create Latex output for this schedule? (yes/NO): '']
          in case input_line of
               None \<Rightarrow> \<lparr>stdout = out, files = fs, exit_code = 1\<rparr>
             | Some line \<Rightarrow>
                (let resp = lower (strip line) in
                 if resp = lit ''yes'' then
                   (case generate_jdd_latex writable fs schedule (lit ''12mm'') (lit ''48mm'')
                           (Some (lit ''jdd_schedule.tex'')) of
                      Inl e \<Rightarrow> \<lparr>stdout = out, files = fs, exit_code = 1\<rparr>
                    | Inr (fs', latex) \<Rightarrow>
                        \<lparr>stdout = out
                           @ [print_chunk ([10, 10] @ lit ''===== LaTeX Schedule Block ====='' @ [10]),
                              print_chunk latex,
                              print_chunk ([10] @ lit ''================================'')],
                         files = fs', exit_code = 0\<rparr>)
                 else
                   \<lparr>stdout = out @ [print_chunk ([10] @ lit ''Exit.'')], files = fs,
                    exit_code = 0\<rparr>)))"

section \<open>Notions used to state the properties\<close>

text \<open>
  The loop invariant behind the absence of overlaps: the entries appended so far are pairwise
  in sequence, each ends no earlier than it starts, and none ends after \<open>current_time\<close>.
\<close>

definition chained :: "entry list \<times> datetime \<Rightarrow> bool" where
  "chained st =
     (case st of (schedule, current_time) \<Rightarrow>
        sorted_wrt (\<lambda>a b. End a \<le> Start b) schedule
      \<and> (\<forall>e\<in>set schedule. Start e \<le> End e \<and> End e \<le> current_time))"

text \<open>
  The entries of a schedule other than the two break dictionaries. No talk entry equals a
  break dictionary (lemma \<open>talk_entry_not_break\<close> below), so these are the talks.
\<close>

definition talks_of :: "entry list \<Rightarrow> entry list" where
  "talks_of schedule = filter (\<lambda>e. e \<noteq> lunch_break \<and> e \<noteq> coffee_break) schedule"

text \<open>
  The value \<open>current_time\<close> has when the entries appended so far are \<open>schedule\<close>: the start
  of the day, or the end of the last entry (lemma \<open>clock_follows_step\<close> below).
\<close>

definition current_time_after :: "entry list \<Rightarrow> datetime" where
  "current_time_after schedule = (if schedule = [] then START_TIME else End (last schedule))"

text \<open>
  Every break entry of the list comes at a moment when the clock, \<open>t\<close> at first and then the
  end of the entry before, has not passed the start of that break.
\<close>

fun guarded :: "datetime \<Rightarrow> entry list \<Rightarrow> bool" where
  "guarded t [] = True"
| "guarded t (e # es) =
     ((e = lunch_break \<longrightarrow> t \<le> LUNCH_START) \<and> (e = coffee_break \<longrightarrow> t \<le> COFFEE_START)
      \<and> guarded (End e) es)"

text \<open>The loop invariant behind a break being appended at most once.\<close>

definition breaks_once :: "entry list \<times> datetime \<Rightarrow> bool" where
  "breaks_once st =
     (case st of (schedule, current_time) \<Rightarrow>
        count_list schedule lunch_break \<le> 1
      \<and> (lunch_break \<in> set schedule \<longrightarrow> LUNCH_END \<le> current_time)
      \<and> count_list schedule coffee_break \<le> 1
      \<and> (coffee_break \<in> set schedule \<longrightarrow> COFFEE_END \<le> current_time)
      \<and> current_time = current_time_after schedule
      \<and> guarded START_TIME schedule)"

text \<open>The \<open>ID\<close> column the script inserts: \<open>range(len(df))\<close>.\<close>

definition table_ids :: "talk_record list \<Rightarrow> int list" where
  "table_ids df = map int [0..<length df]"

text \<open>
  The \<open>tabularx\<close> blocks a list of fragments leaves open: the fragments that are the opening
  line, less those that are the closing line \<open>\end{tabularx}\<close> followed by a newline.
\<close>

definition open_blocks :: "pystr \<Rightarrow> pystr \<Rightarrow> pystr list \<Rightarrow> int" where
  "open_blocks time_col_width speaker_col_width frags =
     int (count_list frags (begin_tabularx time_col_width speaker_col_width))
     - int (count_list frags (bs @ lit ''end{tabularx}'' @ [10]))"

section \<open>Concrete runs\<close>

definition example_row :: "int \<Rightarrow> talk_record" where
  "example_row minutes =
     \<lparr>FIRSTNAME = lit ''Ada'', LASTNAME = lit ''Lovelace'', TITLE = lit ''Engines'',
      TIME = minutes, ONLINE = 0\<rparr>"

definition example_table :: "talk_record list" where
  "example_table = [example_row 50, example_row 20, example_row 50, example_row 50]"


section \<open>The scheduling loop, step by step\<close>

lemmas clock_defs =
  START_TIME_def LUNCH_START_def LUNCH_END_def COFFEE_START_def COFFEE_END_def strptime_HM_def

lemmas step_defs =
  schedule_step_def handle_lunch_def handle_coffee_def iloc_def dt_add_def timedelta_minutes_def
  DT_MIN_def DT_MAX_def

lemma dt_add_Inr: "dt_add t m = Inr e \<Longrightarrow> e = t + m"
  by (auto simp: dt_add_def timedelta_minutes_def split: if_splits)

lemma iloc_Inr_mem: "iloc df idx = Inr row \<Longrightarrow> row \<in> set df"
  by (auto simp: iloc_def Let_def split: if_splits)

lemma handle_lunch_Inr:
  assumes "handle_lunch d (s, ct, e) = Inr (s1, ct1, e1)"
  shows "(ct \<le> LUNCH_START \<and> e > LUNCH_START \<and> s1 = s @ [lunch_break]
            \<and> ct1 = LUNCH_END \<and> e1 = LUNCH_END + d)
       \<or> (\<not> (ct \<le> LUNCH_START \<and> e > LUNCH_START) \<and> s1 = s \<and> ct1 = ct \<and> e1 = e)"
proof (cases "ct \<le> LUNCH_START \<and> e > LUNCH_START")
  case True
  with assms show ?thesis
    by (auto simp: handle_lunch_def split: sum.splits dest: dt_add_Inr)
next
  case False
  with assms show ?thesis
    by (simp add: handle_lunch_def)
qed

lemma handle_coffee_Inr:
  assumes "handle_coffee d (s, ct, e) = Inr (s1, ct1, e1)"
  shows "(ct \<le> COFFEE_START \<and> e > COFFEE_START \<and> s1 = s @ [coffee_break]
            \<and> ct1 = COFFEE_END \<and> e1 = COFFEE_END + d)
       \<or> (\<not> (ct \<le> COFFEE_START \<and> e > COFFEE_START) \<and> s1 = s \<and> ct1 = ct \<and> e1 = e)"
proof (cases "ct \<le> COFFEE_START \<and> e > COFFEE_START")
  case True
  with assms show ?thesis
    by (auto simp: handle_coffee_def split: sum.splits dest: dt_add_Inr)
next
  case False
  with assms show ?thesis
    by (simp add: handle_coffee_def)
qed

lemma schedule_step_Inr:
  assumes "schedule_step df (s, ct) idx = Inr (s', ct')"
  shows "\<exists>row s1 ct1 e1 s2 ct2 e2.
           iloc df idx = Inr row
         \<and> handle_lunch (TIME row + 10) (s, ct, ct + (TIME row + 10)) = Inr (s1, ct1, e1)
         \<and> handle_coffee (TIME row + 10) (s1, ct1, e1) = Inr (s2, ct2, e2)
         \<and> s' = s2 @ [talk_entry row idx ct2 e2] \<and> ct' = e2"
proof -
  from assms obtain row where row: "iloc df idx = Inr row"
    by (auto simp: schedule_step_def split: sum.splits)
  from assms row obtain e0 where e0: "dt_add ct (TIME row + 10) = Inr e0"
    by (auto simp: schedule_step_def Let_def split: sum.splits)
  from assms row e0 obtain st1 where st1: "handle_lunch (TIME row + 10) (s, ct, e0) = Inr st1"
    by (auto simp: schedule_step_def Let_def split: sum.splits)
  from assms row e0 st1 obtain st2 where st2: "handle_coffee (TIME row + 10) st1 = Inr st2"
    by (auto simp: schedule_step_def Let_def split: sum.splits)
  obtain s1 ct1 e1 where [simp]: "st1 = (s1, ct1, e1)" by (cases st1)
  obtain s2 ct2 e2 where [simp]: "st2 = (s2, ct2, e2)" by (cases st2)
  from assms row e0 st1 st2 have "s' = s2 @ [talk_entry row idx ct2 e2] \<and> ct' = e2"
    by (auto simp: schedule_step_def Let_def)
  with row st1 st2 dt_add_Inr[OF e0] show ?thesis by auto
qed

text \<open>
  The four ways an iteration can end: the talk alone, lunch then the talk, lunch and coffee
  then the talk, coffee then the talk.
\<close>

lemma schedule_step_cases:
  assumes "schedule_step df (s, ct) idx = Inr (s', ct')"
  obtains row d where "iloc df idx = Inr row" "d = TIME row + 10"
    "(\<not> (ct \<le> LUNCH_START \<and> ct + d > LUNCH_START)
        \<and> \<not> (ct \<le> COFFEE_START \<and> ct + d > COFFEE_START)
        \<and> s' = s @ [talk_entry row idx ct (ct + d)] \<and> ct' = ct + d)
     \<or> (ct \<le> LUNCH_START \<and> ct + d > LUNCH_START \<and> \<not> LUNCH_END + d > COFFEE_START
        \<and> s' = s @ [lunch_break, talk_entry row idx LUNCH_END (LUNCH_END + d)]
        \<and> ct' = LUNCH_END + d)
     \<or> (ct \<le> LUNCH_START \<and> ct + d > LUNCH_START \<and> LUNCH_END + d > COFFEE_START
        \<and> s' = s @ [lunch_break, coffee_break, talk_entry row idx COFFEE_END (COFFEE_END + d)]
        \<and> ct' = COFFEE_END + d)
     \<or> (\<not> (ct \<le> LUNCH_START \<and> ct + d > LUNCH_START)
        \<and> ct \<le> COFFEE_START \<and> ct + d > COFFEE_START
        \<and> s' = s @ [coffee_break, talk_entry row idx COFFEE_END (COFFEE_END + d)]
        \<and> ct' = COFFEE_END + d)"
proof -
  from schedule_step_Inr[OF assms] obtain row s1 ct1 e1 s2 ct2 e2 where
    row: "iloc df idx = Inr row"
    and l: "handle_lunch (TIME row + 10) (s, ct, ct + (TIME row + 10)) = Inr (s1, ct1, e1)"
    and c: "handle_coffee (TIME row + 10) (s1, ct1, e1) = Inr (s2, ct2, e2)"
    and r: "s' = s2 @ [talk_entry row idx ct2 e2]" "ct' = e2"
    by blast
  have le: "LUNCH_END \<le> COFFEE_START" by (simp add: clock_defs)
  show thesis
    using handle_lunch_Inr[OF l] handle_coffee_Inr[OF c] r le
    by (intro that[OF row refl]) auto
qed

text \<open>A property kept by every iteration that returns holds when the loop is over.\<close>

lemma schedule_loop_invariant:
  assumes "schedule_loop df st order = Inr st'" and "P st"
    and "\<And>st idx st'. P st \<Longrightarrow> schedule_step df st idx = Inr st' \<Longrightarrow> P st'"
  shows "P st'"
  using assms(1,2)
proof (induction order arbitrary: st)
  case Nil
  then show ?case by simp
next
  case (Cons idx order)
  then show ?case by (auto split: sum.splits intro: assms(3))
qed

lemma break_times:
  "Start lunch_break = 720" "End lunch_break = 840"
  "Start coffee_break = 940" "End coffee_break = 960"
  by (simp_all add: lunch_break_def coffee_break_def clock_defs)

lemma clock_values:
  "START_TIME = 565" "LUNCH_START = 720" "LUNCH_END = 840" "COFFEE_START = 940" "COFFEE_END = 960"
  by (simp_all add: clock_defs)

lemma talk_entry_times:
  "Start (talk_entry row idx a b) = a" "End (talk_entry row idx a b) = b"
  by (simp_all add: talk_entry_def)

section \<open>No two entries overlap\<close>

lemma chained_step:
  assumes pos: "\<forall>r\<in>set df. 0 < TIME r"
    and inv: "chained st" and step: "schedule_step df st idx = Inr st'"
  shows "chained st'"
proof -
  obtain s ct where st: "st = (s, ct)" by (cases st)
  obtain s' ct' where st': "st' = (s', ct')" by (cases st')
  from step[unfolded st st'] show ?thesis
  proof (cases rule: schedule_step_cases)
    case (1 row d)
    from iloc_Inr_mem[OF 1(1)] pos 1(2) have d: "0 < d" by auto
    from inv have srt: "sorted_wrt (\<lambda>a b. End a \<le> Start b) s"
      and bnd: "\<And>e. e \<in> set s \<Longrightarrow> Start e \<le> End e \<and> End e \<le> ct"
      by (auto simp: chained_def st)
    from 1(3) show ?thesis
      unfolding st' chained_def clock_values
      using srt bnd d
      by (elim disjE conjE) (force simp: sorted_wrt_append break_times talk_entry_times)+
  qed
qed

text \<open>
  C1. Whenever the loop runs to its end on a table whose durations are positive, the start
  times of the schedule never decrease, each entry ends no later than the next one starts,
  and more generally no entry ends after a later one has started.
\<close>

theorem schedule_no_overlap:
  assumes "build_schedule df order = Inr schedule" and "\<forall>r\<in>set df. 0 < TIME r"
  shows "(\<forall>i j. i \<le> j \<and> j < length schedule \<longrightarrow> Start (schedule ! i) \<le> Start (schedule ! j))
       \<and> (\<forall>i. Suc i < length schedule \<longrightarrow> End (schedule ! i) \<le> Start (schedule ! Suc i))
       \<and> (\<forall>i j. i < j \<and> j < length schedule \<longrightarrow> End (schedule ! i) \<le> Start (schedule ! j))"
proof -
  from assms(1) obtain ct where
    loop: "schedule_loop df ([], START_TIME) order = Inr (schedule, ct)"
    by (auto simp: build_schedule_def split: sum.splits)
  have "chained (schedule, ct)"
    by (rule schedule_loop_invariant[OF loop, where P = chained])
       (simp add: chained_def, rule chained_step[OF assms(2)])
  then have srt: "sorted_wrt (\<lambda>a b. End a \<le> Start b) schedule"
    and bnd: "\<And>e. e \<in> set schedule \<Longrightarrow> Start e \<le> End e"
    by (auto simp: chained_def)
  have pairs: "End (schedule ! i) \<le> Start (schedule ! j)"
    if "i < j" "j < length schedule" for i j
    using srt that by (simp add: sorted_wrt_iff_nth_less)
  have starts: "Start (schedule ! i) \<le> Start (schedule ! j)"
    if "i \<le> j" "j < length schedule" for i j
  proof (cases "i = j")
    case True
    then show ?thesis by simp
  next
    case False
    with that have "i < j" by simp
    from pairs[OF this that(2)] bnd[of "schedule ! i"] that show ?thesis by force
  qed
  from pairs starts show ?thesis by auto
qed

lemma example_run:
  "build_schedule example_table [0, 2, 1, 3, 0] =
     Inr [talk_entry (example_row 50) 0 565 625,
          talk_entry (example_row 50) 2 625 685,
          talk_entry (example_row 20) 1 685 715,
          lunch_break,
          talk_entry (example_row 50) 3 840 900,
          coffee_break,
          talk_entry (example_row 50) 0 960 1020]"
  by (simp add: build_schedule_def step_defs clock_defs example_table_def example_row_def
      talk_entry_def lunch_break_def coffee_break_def)

lemma example_table_positive: "\<forall>r\<in>set example_table. 0 < TIME r"
  by (simp add: example_table_def example_row_def)

theorem schedule_no_overlap_witness:
  "build_schedule example_table [0, 2, 1, 3, 0] =
     Inr [talk_entry (example_row 50) 0 565 625,
          talk_entry (example_row 50) 2 625 685,
          talk_entry (example_row 20) 1 685 715,
          lunch_break,
          talk_entry (example_row 50) 3 840 900,
          coffee_break,
          talk_entry (example_row 50) 0 960 1020]
   \<and> list_all (\<lambda>r. 0 < TIME r) example_table
   \<and> End (talk_entry (example_row 20) 1 685 715) \<le> Start lunch_break
   \<and> End lunch_break \<le> Start (talk_entry (example_row 50) 3 840 900)"
proof -
  let ?s = "[talk_entry (example_row 50) 0 565 625,
          talk_entry (example_row 50) 2 625 685,
          talk_entry (example_row 20) 1 685 715,
          lunch_break,
          talk_entry (example_row 50) 3 840 900,
          coffee_break,
          talk_entry (example_row 50) 0 960 1020]"
  from schedule_no_overlap[OF example_run example_table_positive]
  have "\<forall>i. Suc i < length ?s \<longrightarrow> End (?s ! i) \<le> Start (?s ! Suc i)"
    by blast
  from this[rule_format, of 2] this[rule_format, of 3] example_run example_table_positive
  show ?thesis by (simp add: list_all_iff)
qed

section \<open>The break insertion rule\<close>

text \<open>
  C2. One iteration, when no addition overflows. Lunch is tested on the incoming
  \<open>current_time\<close> and the first tentative end; when it fires the break spans exactly
  \<open>[LUNCH_START, LUNCH_END]\<close>, the clock is \<open>LUNCH_END\<close> and the end is computed again from
  there, and it is this new end that the coffee test reads. The talk takes the clock and the
  end left by the last test that fired as its \<open>Start\<close> and \<open>End\<close>, and the row's name, title
  and online flag and the position as its other fields. From 11:50 a slot of 30 minutes
  gives the lunch entry from 12:00 to 14:00 and then the talk from 14:00 to 14:30, both
  written out field by field.
\<close>

theorem break_insertion_rule:
  assumes row: "iloc df idx = Inr row"
    and e0: "dt_add current_time (TIME row + 10) = Inr e0"
    and e1: "dt_add LUNCH_END (TIME row + 10) = Inr e1"
    and e2: "dt_add COFFEE_END (TIME row + 10) = Inr e2"
  shows "schedule_step df (schedule, current_time) idx =
           Inr (if current_time \<le> LUNCH_START \<and> e0 > LUNCH_START then
                  (if e1 > COFFEE_START
                   then (schedule @ [lunch_break, coffee_break, talk_entry row idx COFFEE_END e2], e2)
                   else (schedule @ [lunch_break, talk_entry row idx LUNCH_END e1], e1))
                else if current_time \<le> COFFEE_START \<and> e0 > COFFEE_START
                  then (schedule @ [coffee_break, talk_entry row idx COFFEE_END e2], e2)
                else (schedule @ [talk_entry row idx current_time e0], e0))
       \<and> e0 = current_time + (TIME row + 10)
       \<and> e1 = LUNCH_END + (TIME row + 10)
       \<and> e2 = COFFEE_END + (TIME row + 10)
       \<and> Start lunch_break = LUNCH_START \<and> End lunch_break = LUNCH_END
       \<and> Start coffee_break = COFFEE_START \<and> End coffee_break = COFFEE_END
       \<and> talk_entry row idx a b =
           \<lparr>Speaker = FIRSTNAME row @ lit '' '' @ LASTNAME row, Title = TITLE row,
            Start = a, End = b, ID = idx, Online = ONLINE row\<rparr>
       \<and> Start (talk_entry row idx a b) = a \<and> End (talk_entry row idx a b) = b
       \<and> lunch_break =
           \<lparr>Speaker = lit ''--- Lunch Break ---'', Title = [], Start = strptime_HM 12 0,
            End = strptime_HM 14 0, ID = - 1, Online = - 1\<rparr>
       \<and> coffee_break =
           \<lparr>Speaker = lit ''--- Coffee Break ---'', Title = [], Start = strptime_HM 15 40,
            End = strptime_HM 16 0, ID = - 1, Online = - 1\<rparr>
       \<and> schedule_step [example_row 20] ([], strptime_HM 11 50) 0 =
           Inr ([lunch_break, talk_entry (example_row 20) 0 (strptime_HM 14 0) (strptime_HM 14 30)],
                strptime_HM 14 30)
       \<and> schedule_step
            [\<lparr>FIRSTNAME = lit ''Ada'', LASTNAME = lit ''Lovelace'', TITLE = lit ''Engines'',
              TIME = 20, ONLINE = 0\<rparr>]
            ([], strptime_HM 11 50) 0 =
           Inr ([\<lparr>Speaker = lit ''--- Lunch Break ---'', Title = [], Start = strptime_HM 12 0,
                  End = strptime_HM 14 0, ID = - 1, Online = - 1\<rparr>,
                 \<lparr>Speaker = lit ''Ada'' @ lit '' '' @ lit ''Lovelace'', Title = lit ''Engines'',
                  Start = strptime_HM 14 0, End = strptime_HM 14 30, ID = 0, Online = 0\<rparr>],
                strptime_HM 14 30)"
proof -
  have le: "LUNCH_END \<le> COFFEE_START" by (simp add: clock_defs)
  have step: "schedule_step df (schedule, current_time) idx =
           Inr (if current_time \<le> LUNCH_START \<and> e0 > LUNCH_START then
                  (if e1 > COFFEE_START
                   then (schedule @ [lunch_break, coffee_break, talk_entry row idx COFFEE_END e2], e2)
                   else (schedule @ [lunch_break, talk_entry row idx LUNCH_END e1], e1))
                else if current_time \<le> COFFEE_START \<and> e0 > COFFEE_START
                  then (schedule @ [coffee_break, talk_entry row idx COFFEE_END e2], e2)
                else (schedule @ [talk_entry row idx current_time e0], e0))"
    using le by (auto simp: schedule_step_def handle_lunch_def handle_coffee_def Let_def row e0 e1 e2)
  have scen: "schedule_step [example_row 20] ([], strptime_HM 11 50) 0 =
           Inr ([lunch_break, talk_entry (example_row 20) 0 (strptime_HM 14 0) (strptime_HM 14 30)],
                strptime_HM 14 30)"
    by (simp add: step_defs clock_defs example_row_def)
  have scen2: "schedule_step
            [\<lparr>FIRSTNAME = lit ''Ada'', LASTNAME = lit ''Lovelace'', TITLE = lit ''Engines'',
              TIME = 20, ONLINE = 0\<rparr>]
            ([], strptime_HM 11 50) 0 =
           Inr ([\<lparr>Speaker = lit ''--- Lunch Break ---'', Title = [], Start = strptime_HM 12 0,
                  End = strptime_HM 14 0, ID = - 1, Online = - 1\<rparr>,
                 \<lparr>Speaker = lit ''Ada'' @ lit '' '' @ lit ''Lovelace'', Title = lit ''Engines'',
                  Start = strptime_HM 14 0, End = strptime_HM 14 30, ID = 0, Online = 0\<rparr>],
                strptime_HM 14 30)"
    by (simp add: step_defs clock_defs lunch_break_def talk_entry_def)
  have recs: "talk_entry row idx a b =
           \<lparr>Speaker = FIRSTNAME row @ lit '' '' @ LASTNAME row, Title = TITLE row,
            Start = a, End = b, ID = idx, Online = ONLINE row\<rparr>"
    "lunch_break =
           \<lparr>Speaker = lit ''--- Lunch Break ---'', Title = [], Start = strptime_HM 12 0,
            End = strptime_HM 14 0, ID = - 1, Online = - 1\<rparr>"
    "coffee_break =
           \<lparr>Speaker = lit ''--- Coffee Break ---'', Title = [], Start = strptime_HM 15 40,
            End = strptime_HM 16 0, ID = - 1, Online = - 1\<rparr>"
    by (simp_all add: talk_entry_def lunch_break_def coffee_break_def clock_defs)
  have br: "Start lunch_break = LUNCH_START" "End lunch_break = LUNCH_END"
    "Start coffee_break = COFFEE_START" "End coffee_break = COFFEE_END"
    by (simp_all add: lunch_break_def coffee_break_def)
  from step scen scen2 recs br talk_entry_times[of row idx a b]
    dt_add_Inr[OF e0] dt_add_Inr[OF e1] dt_add_Inr[OF e2]
  show ?thesis by blast
qed

theorem break_insertion_rule_witness:
  "schedule_step example_table ([], strptime_HM 15 30) 1 =
     Inr ([coffee_break, talk_entry (example_row 20) 1 (strptime_HM 16 0) (strptime_HM 16 30)],
          strptime_HM 16 30)
   \<and> Start (talk_entry (example_row 20) 1 (strptime_HM 16 0) (strptime_HM 16 30)) = strptime_HM 16 0
   \<and> End (talk_entry (example_row 20) 1 (strptime_HM 16 0) (strptime_HM 16 30)) = strptime_HM 16 30
   \<and> Start coffee_break = strptime_HM 15 40 \<and> End coffee_break = strptime_HM 16 0"
proof -
  have row: "iloc example_table 1 = Inr (example_row 20)"
    by (simp add: iloc_def example_table_def)
  have e0: "dt_add (strptime_HM 15 30) (TIME (example_row 20) + 10) = Inr (strptime_HM 16 0)"
    by (simp add: dt_add_def timedelta_minutes_def DT_MIN_def DT_MAX_def strptime_HM_def example_row_def)
  have e1: "dt_add LUNCH_END (TIME (example_row 20) + 10) = Inr (strptime_HM 14 30)"
    by (simp add: dt_add_def timedelta_minutes_def DT_MIN_def DT_MAX_def clock_defs example_row_def)
  have e2: "dt_add COFFEE_END (TIME (example_row 20) + 10) = Inr (strptime_HM 16 30)"
    by (simp add: dt_add_def timedelta_minutes_def DT_MIN_def DT_MAX_def clock_defs example_row_def)
  from break_insertion_rule[OF row e0 e1 e2, of "[]" "strptime_HM 16 0" "strptime_HM 16 30"]
  show ?thesis by (simp add: clock_defs)
qed

section \<open>The slot of a talk\<close>

text \<open>
  A talk entry never equals one of the two break dictionaries: its start would have to be
  the start of the break, and then the test for that break would have fired.
\<close>

lemma talk_entry_eq_lunch:
  assumes "talk_entry row idx a b = lunch_break"
  shows "a = 720 \<and> b = 840"
proof -
  have "Start (talk_entry row idx a b) = Start lunch_break"
    "End (talk_entry row idx a b) = End lunch_break"
    using assms by simp_all
  then show ?thesis by (simp add: talk_entry_times break_times)
qed

lemma talk_entry_eq_coffee:
  assumes "talk_entry row idx a b = coffee_break"
  shows "a = 940 \<and> b = 960"
proof -
  have "Start (talk_entry row idx a b) = Start coffee_break"
    "End (talk_entry row idx a b) = End coffee_break"
    using assms by simp_all
  then show ?thesis by (simp add: talk_entry_times break_times)
qed

lemma step_shape:
  assumes "iloc df idx = Inr row"
    and "s' = s @ brk @ [talk_entry row idx a (a + (TIME row + 10))]"
    and "set brk \<subseteq> {lunch_break, coffee_break}"
    and "talk_entry row idx a (a + (TIME row + 10)) \<noteq> lunch_break"
    and "talk_entry row idx a (a + (TIME row + 10)) \<noteq> coffee_break"
    and "ct' = a + (TIME row + 10)"
  shows "\<exists>row brk t. iloc df idx = Inr row \<and> s' = s @ brk @ [t]
           \<and> set brk \<subseteq> {lunch_break, coffee_break}
           \<and> t = talk_entry row idx (Start t) (End t) \<and> End t = Start t + (TIME row + 10)
           \<and> t \<noteq> lunch_break \<and> t \<noteq> coffee_break \<and> ct' = End t"
  using assms
  by (intro exI[of _ row] exI[of _ brk] exI[of _ "talk_entry row idx a (a + (TIME row + 10))"])
     (simp add: talk_entry_times)

lemma talk_entry_not_break:
  assumes "schedule_step df (s, ct) idx = Inr (s', ct')"
  shows "\<exists>row brk t. iloc df idx = Inr row \<and> s' = s @ brk @ [t]
           \<and> set brk \<subseteq> {lunch_break, coffee_break}
           \<and> t = talk_entry row idx (Start t) (End t) \<and> End t = Start t + (TIME row + 10)
           \<and> t \<noteq> lunch_break \<and> t \<noteq> coffee_break \<and> ct' = End t"
  using assms
proof (cases rule: schedule_step_cases)
  case (1 row d)
  note row = 1(1) and d = 1(2)
  from 1(3) consider
      (talk) "\<not> (ct \<le> LUNCH_START \<and> ct + d > LUNCH_START)"
          "\<not> (ct \<le> COFFEE_START \<and> ct + d > COFFEE_START)"
          "s' = s @ [talk_entry row idx ct (ct + d)]" "ct' = ct + d"
    | (lunch) "s' = s @ [lunch_break, talk_entry row idx LUNCH_END (LUNCH_END + d)]"
          "ct' = LUNCH_END + d"
    | (both) "s' = s @ [lunch_break, coffee_break, talk_entry row idx COFFEE_END (COFFEE_END + d)]"
          "ct' = COFFEE_END + d"
    | (coffee) "s' = s @ [coffee_break, talk_entry row idx COFFEE_END (COFFEE_END + d)]"
          "ct' = COFFEE_END + d"
    by blast
  then show ?thesis
  proof cases
    case talk
    have "talk_entry row idx ct (ct + d) \<noteq> lunch_break"
    proof
      assume "talk_entry row idx ct (ct + d) = lunch_break"
      from talk_entry_eq_lunch[OF this] talk(1) show False by (simp add: clock_values)
    qed
    moreover have "talk_entry row idx ct (ct + d) \<noteq> coffee_break"
    proof
      assume "talk_entry row idx ct (ct + d) = coffee_break"
      from talk_entry_eq_coffee[OF this] talk(2) show False by (simp add: clock_values)
    qed
    ultimately show ?thesis
      using talk(3,4) by (intro step_shape[OF row, where brk = "[]" and a = ct]) (simp_all add: d)
  next
    case lunch
    have "talk_entry row idx LUNCH_END (LUNCH_END + d) \<noteq> lunch_break"
      using talk_entry_eq_lunch[of row idx LUNCH_END "LUNCH_END + d"] by (auto simp: clock_values)
    moreover have "talk_entry row idx LUNCH_END (LUNCH_END + d) \<noteq> coffee_break"
      using talk_entry_eq_coffee[of row idx LUNCH_END "LUNCH_END + d"] by (auto simp: clock_values)
    ultimately show ?thesis
      using lunch
      by (intro step_shape[OF row, where brk = "[lunch_break]" and a = LUNCH_END]) (simp_all add: d)
  next
    case both
    have "talk_entry row idx COFFEE_END (COFFEE_END + d) \<noteq> lunch_break"
      using talk_entry_eq_lunch[of row idx COFFEE_END "COFFEE_END + d"] by (auto simp: clock_values)
    moreover have "talk_entry row idx COFFEE_END (COFFEE_END + d) \<noteq> coffee_break"
      using talk_entry_eq_coffee[of row idx COFFEE_END "COFFEE_END + d"] by (auto simp: clock_values)
    ultimately show ?thesis
      using both
      by (intro step_shape[OF row, where brk = "[lunch_break, coffee_break]" and a = COFFEE_END])
         (simp_all add: d)
  next
    case coffee
    have "talk_entry row idx COFFEE_END (COFFEE_END + d) \<noteq> lunch_break"
      using talk_entry_eq_lunch[of row idx COFFEE_END "COFFEE_END + d"] by (auto simp: clock_values)
    moreover have "talk_entry row idx COFFEE_END (COFFEE_END + d) \<noteq> coffee_break"
      using talk_entry_eq_coffee[of row idx COFFEE_END "COFFEE_END + d"] by (auto simp: clock_values)
    ultimately show ?thesis
      using coffee
      by (intro step_shape[OF row, where brk = "[coffee_break]" and a = COFFEE_END])
         (simp_all add: d)
  qed
qed

lemma talks_of_append: "talks_of (xs @ ys) = talks_of xs @ talks_of ys"
  by (simp add: talks_of_def)

lemma talks_of_breaks: "set brk \<subseteq> {lunch_break, coffee_break} \<Longrightarrow> talks_of brk = []"
  unfolding talks_of_def filter_empty_conv by blast

lemma talks_of_talk: "t \<noteq> lunch_break \<Longrightarrow> t \<noteq> coffee_break \<Longrightarrow> talks_of [t] = [t]"
  by (simp add: talks_of_def)

lemma talks_of_loop:
  assumes "schedule_loop df (s, ct) order = Inr (s', ct')"
  shows "\<exists>new. s' = s @ new
          \<and> list_all2 (\<lambda>e idx. \<exists>row. iloc df idx = Inr row
                                   \<and> e = talk_entry row idx (Start e) (End e)
                                   \<and> End e = Start e + (TIME row + 10))
               (talks_of new) order"
  using assms
proof (induction order arbitrary: s ct)
  case Nil
  then show ?case by (simp add: talks_of_def)
next
  case (Cons idx order)
  from Cons.prems obtain s1 ct1 where
    step: "schedule_step df (s, ct) idx = Inr (s1, ct1)"
    and rest: "schedule_loop df (s1, ct1) order = Inr (s', ct')"
    by (auto split: sum.splits)
  from talk_entry_not_break[OF step] obtain row brk t where
    t: "iloc df idx = Inr row" "s1 = s @ brk @ [t]" "set brk \<subseteq> {lunch_break, coffee_break}"
       "t = talk_entry row idx (Start t) (End t)" "End t = Start t + (TIME row + 10)"
       "t \<noteq> lunch_break" "t \<noteq> coffee_break"
    by blast
  from Cons.IH[OF rest] obtain new where
    new: "s' = s1 @ new"
      "list_all2 (\<lambda>e idx. \<exists>row. iloc df idx = Inr row
                                   \<and> e = talk_entry row idx (Start e) (End e)
                                   \<and> End e = Start e + (TIME row + 10))
               (talks_of new) order"
    by blast
  have tk: "talks_of (brk @ [t] @ new) = t # talks_of new"
  proof -
    have "talks_of (brk @ [t] @ new) = talks_of brk @ talks_of [t] @ talks_of new"
      by (simp only: talks_of_append)
    then show ?thesis
      by (simp only: talks_of_breaks[OF t(3)] talks_of_talk[OF t(6,7)] append_Nil append_Cons)
  qed
  have "s' = s @ (brk @ [t] @ new)" using new(1) t(2) by simp
  moreover have "list_all2 (\<lambda>e idx. \<exists>row. iloc df idx = Inr row
                                   \<and> e = talk_entry row idx (Start e) (End e)
                                   \<and> End e = Start e + (TIME row + 10))
               (talks_of (brk @ [t] @ new)) (idx # order)"
    unfolding tk using new(2) t(1,4,5) by auto
  ultimately show ?case by blast
qed

text \<open>
  C3. With the break dictionaries left out, the schedule lists one entry per element of
  \<open>order\<close>, in that order, and the entry for \<open>idx\<close> carries the row \<open>df.iloc[idx]\<close> and ends
  \<open>TIME + 10\<close> minutes after it starts. A single talk of 50 minutes starts at 09:25, ends at
  10:25, and is the only entry of the schedule.
\<close>

theorem talk_slot_length:
  "(build_schedule df order = Inr schedule \<longrightarrow>
      list_all2 (\<lambda>e idx. \<exists>row. iloc df idx = Inr row
                            \<and> e = talk_entry row idx (Start e) (End e)
                            \<and> End e = Start e + (TIME row + 10))
        (talks_of schedule) order)
   \<and> (TIME row = 50 \<longrightarrow>
        START_TIME = strptime_HM 9 25
      \<and> build_schedule [row] [0] = Inr [talk_entry row 0 (strptime_HM 9 25) (strptime_HM 10 25)])"
proof (intro conjI impI)
  assume "build_schedule df order = Inr schedule"
  then obtain ct where "schedule_loop df ([], START_TIME) order = Inr (schedule, ct)"
    by (auto simp: build_schedule_def split: sum.splits)
  from talks_of_loop[OF this]
  show "list_all2 (\<lambda>e idx. \<exists>row. iloc df idx = Inr row
                            \<and> e = talk_entry row idx (Start e) (End e)
                            \<and> End e = Start e + (TIME row + 10))
        (talks_of schedule) order"
    by simp
next
  show "START_TIME = strptime_HM 9 25" by (simp add: START_TIME_def)
next
  assume "TIME row = 50"
  then show "build_schedule [row] [0] =
      Inr [talk_entry row 0 (strptime_HM 9 25) (strptime_HM 10 25)]"
    by (simp add: build_schedule_def step_defs clock_defs)
qed

theorem talk_slot_length_witness:
  "build_schedule example_table [0, 2, 1, 3, 0] =
     Inr [talk_entry (example_row 50) 0 565 625,
          talk_entry (example_row 50) 2 625 685,
          talk_entry (example_row 20) 1 685 715,
          lunch_break,
          talk_entry (example_row 50) 3 840 900,
          coffee_break,
          talk_entry (example_row 50) 0 960 1020]
   \<and> list_all2 (\<lambda>e idx. \<exists>row. iloc example_table idx = Inr row
                            \<and> e = talk_entry row idx (Start e) (End e)
                            \<and> End e = Start e + (TIME row + 10))
        (talks_of [talk_entry (example_row 50) 0 565 625,
          talk_entry (example_row 50) 2 625 685,
          talk_entry (example_row 20) 1 685 715,
          lunch_break,
          talk_entry (example_row 50) 3 840 900,
          coffee_break,
          talk_entry (example_row 50) 0 960 1020]) [0, 2, 1, 3, 0]
   \<and> TIME (example_row 50) = 50
   \<and> build_schedule [example_row 50] [0] =
       Inr [talk_entry (example_row 50) 0 (strptime_HM 9 25) (strptime_HM 10 25)]"
  using talk_slot_length[of example_table "[0, 2, 1, 3, 0]" _ "example_row 50"] example_run
  by (simp add: example_row_def)

section \<open>Each break at most once\<close>

lemma current_time_after_snoc: "current_time_after (s @ [e]) = End e"
  by (simp add: current_time_after_def)

lemma guarded_append:
  "guarded t (xs @ ys) = (guarded t xs \<and> guarded (if xs = [] then t else End (last xs)) ys)"
  by (induction xs arbitrary: t) auto

lemma guarded_split:
  assumes "guarded START_TIME (pre @ e # post)"
  shows "(e = lunch_break \<longrightarrow> current_time_after pre \<le> LUNCH_START)
       \<and> (e = coffee_break \<longrightarrow> current_time_after pre \<le> COFFEE_START)"
  using assms by (simp add: guarded_append current_time_after_def)

lemma lunch_ne_coffee: "lunch_break \<noteq> coffee_break"
proof
  assume "lunch_break = coffee_break"
  then have "Start lunch_break = Start coffee_break" by simp
  then show False by (simp add: break_times)
qed

text \<open>One invariant at a time, for an iteration that appends \<open>new\<close> and ends with the talk.\<close>

lemma breaks_once_extend:
  assumes inv: "breaks_once (s, ct)"
    and lunch: "count_list new lunch_break \<le> 1"
      "lunch_break \<in> set new \<Longrightarrow> ct \<le> LUNCH_START"
    and coffee: "count_list new coffee_break \<le> 1"
      "coffee_break \<in> set new \<Longrightarrow> ct \<le> COFFEE_START"
    and clock: "ct \<le> ct'" "lunch_break \<in> set new \<Longrightarrow> LUNCH_END \<le> ct'"
      "coffee_break \<in> set new \<Longrightarrow> COFFEE_END \<le> ct'"
    and last: "new \<noteq> []" "End (last new) = ct'"
    and grd: "guarded ct new"
  shows "breaks_once (s @ new, ct')"
proof -
  from inv have i1: "count_list s lunch_break \<le> 1"
    and i2: "lunch_break \<in> set s \<Longrightarrow> LUNCH_END \<le> ct"
    and i3: "count_list s coffee_break \<le> 1"
    and i4: "coffee_break \<in> set s \<Longrightarrow> COFFEE_END \<le> ct"
    and i5: "ct = current_time_after s"
    and i6: "guarded START_TIME s"
    by (simp_all add: breaks_once_def)
  have l: "count_list (s @ new) lunch_break \<le> 1"
  proof (cases "lunch_break \<in> set new")
    case True
    from lunch(2)[OF True] i2 have "lunch_break \<notin> set s" by (auto simp: clock_values)
    with lunch(1) show ?thesis by simp
  next
    case False
    with i1 show ?thesis by simp
  qed
  have c: "count_list (s @ new) coffee_break \<le> 1"
  proof (cases "coffee_break \<in> set new")
    case True
    from coffee(2)[OF True] i4 have "coffee_break \<notin> set s" by (auto simp: clock_values)
    with coffee(1) show ?thesis by simp
  next
    case False
    with i3 show ?thesis by simp
  qed
  have l2: "lunch_break \<in> set (s @ new) \<longrightarrow> LUNCH_END \<le> ct'"
    using i2 clock(1,2) by auto
  have c2: "coffee_break \<in> set (s @ new) \<longrightarrow> COFFEE_END \<le> ct'"
    using i4 clock(1,3) by auto
  have t: "ct' = current_time_after (s @ new)"
    using last by (simp add: current_time_after_def)
  have g: "guarded START_TIME (s @ new)"
    using i6 grd i5 by (simp add: guarded_append current_time_after_def)
  from l c l2 c2 t g show ?thesis by (simp add: breaks_once_def)
qed

lemma extend_talk:
  assumes inv: "breaks_once (s, ct)" and d: "0 < d"
    and ne: "t \<noteq> lunch_break" "t \<noteq> coffee_break" and t: "Start t = ct" "End t = ct + d"
  shows "breaks_once (s @ [t], ct + d)"
proof (rule breaks_once_extend[OF inv])
  show "count_list [t] lunch_break \<le> 1" using ne by simp
  show "count_list [t] coffee_break \<le> 1" using ne by simp
  show "lunch_break \<in> set [t] \<Longrightarrow> ct \<le> LUNCH_START" using ne by simp
  show "coffee_break \<in> set [t] \<Longrightarrow> ct \<le> COFFEE_START" using ne by simp
  show "ct \<le> ct + d" using d by simp
  show "lunch_break \<in> set [t] \<Longrightarrow> LUNCH_END \<le> ct + d" using ne by simp
  show "coffee_break \<in> set [t] \<Longrightarrow> COFFEE_END \<le> ct + d" using ne by simp
  show "[t] \<noteq> []" by simp
  show "End (last [t]) = ct + d" using t by simp
  show "guarded ct [t]" using ne by simp
qed

lemma extend_lunch:
  assumes inv: "breaks_once (s, ct)" and d: "0 < d" and ct: "ct \<le> LUNCH_START"
    and ne: "t \<noteq> lunch_break" "t \<noteq> coffee_break" and t: "End t = LUNCH_END + d"
  shows "breaks_once (s @ [lunch_break, t], LUNCH_END + d)"
proof (rule breaks_once_extend[OF inv])
  show "count_list [lunch_break, t] lunch_break \<le> 1" using ne by simp
  show "count_list [lunch_break, t] coffee_break \<le> 1" using ne lunch_ne_coffee by simp
  show "lunch_break \<in> set [lunch_break, t] \<Longrightarrow> ct \<le> LUNCH_START" by (rule ct)
  show "coffee_break \<in> set [lunch_break, t] \<Longrightarrow> ct \<le> COFFEE_START"
    using ct by (simp add: clock_values)
  show "ct \<le> LUNCH_END + d" using d ct by (simp add: clock_values)
  show "lunch_break \<in> set [lunch_break, t] \<Longrightarrow> LUNCH_END \<le> LUNCH_END + d" using d by simp
  show "coffee_break \<in> set [lunch_break, t] \<Longrightarrow> COFFEE_END \<le> LUNCH_END + d"
    using ne(2) lunch_ne_coffee by auto
  show "[lunch_break, t] \<noteq> []" by simp
  show "End (last [lunch_break, t]) = LUNCH_END + d" using t by simp
  show "guarded ct [lunch_break, t]" using ne ct lunch_ne_coffee by simp
qed

lemma extend_both:
  assumes inv: "breaks_once (s, ct)" and d: "0 < d" and ct: "ct \<le> LUNCH_START"
    and ne: "t \<noteq> lunch_break" "t \<noteq> coffee_break" and t: "End t = COFFEE_END + d"
  shows "breaks_once (s @ [lunch_break, coffee_break, t], COFFEE_END + d)"
proof (rule breaks_once_extend[OF inv])
  show "count_list [lunch_break, coffee_break, t] lunch_break \<le> 1"
    using ne lunch_ne_coffee by simp
  show "count_list [lunch_break, coffee_break, t] coffee_break \<le> 1"
    using ne lunch_ne_coffee by simp
  show "lunch_break \<in> set [lunch_break, coffee_break, t] \<Longrightarrow> ct \<le> LUNCH_START" by (rule ct)
  show "coffee_break \<in> set [lunch_break, coffee_break, t] \<Longrightarrow> ct \<le> COFFEE_START"
    using ct by (simp add: clock_values)
  show "ct \<le> COFFEE_END + d" using d ct by (simp add: clock_values)
  show "lunch_break \<in> set [lunch_break, coffee_break, t] \<Longrightarrow> LUNCH_END \<le> COFFEE_END + d"
    using d by (simp add: clock_values)
  show "coffee_break \<in> set [lunch_break, coffee_break, t] \<Longrightarrow> COFFEE_END \<le> COFFEE_END + d"
    using d by simp
  show "[lunch_break, coffee_break, t] \<noteq> []" by simp
  show "End (last [lunch_break, coffee_break, t]) = COFFEE_END + d" using t by simp
  show "guarded ct [lunch_break, coffee_break, t]"
    using ne ct lunch_ne_coffee by (simp add: break_times clock_values)
qed

lemma extend_coffee:
  assumes inv: "breaks_once (s, ct)" and d: "0 < d" and ct: "ct \<le> COFFEE_START"
    and ne: "t \<noteq> lunch_break" "t \<noteq> coffee_break" and t: "End t = COFFEE_END + d"
  shows "breaks_once (s @ [coffee_break, t], COFFEE_END + d)"
proof (rule breaks_once_extend[OF inv])
  show "count_list [coffee_break, t] lunch_break \<le> 1"
    using ne lunch_ne_coffee by simp
  show "count_list [coffee_break, t] coffee_break \<le> 1"
    using ne by simp
  show "lunch_break \<in> set [coffee_break, t] \<Longrightarrow> ct \<le> LUNCH_START"
    using ne lunch_ne_coffee by auto
  show "coffee_break \<in> set [coffee_break, t] \<Longrightarrow> ct \<le> COFFEE_START" by (rule ct)
  show "ct \<le> COFFEE_END + d" using d ct by (simp add: clock_values)
  show "lunch_break \<in> set [coffee_break, t] \<Longrightarrow> LUNCH_END \<le> COFFEE_END + d"
    using d by (simp add: clock_values)
  show "coffee_break \<in> set [coffee_break, t] \<Longrightarrow> COFFEE_END \<le> COFFEE_END + d"
    using d by simp
  show "[coffee_break, t] \<noteq> []" by simp
  show "End (last [coffee_break, t]) = COFFEE_END + d" using t by simp
  show "guarded ct [coffee_break, t]"
    using ne ct lunch_ne_coffee by simp
qed

lemma breaks_once_step:
  assumes pos: "\<forall>r\<in>set df. 0 < TIME r"
    and inv: "breaks_once st" and step: "schedule_step df st idx = Inr st'"
  shows "breaks_once st'"
proof -
  obtain s ct where st: "st = (s, ct)" by (cases st)
  obtain s' ct' where st': "st' = (s', ct')" by (cases st')
  note inv' = inv[unfolded st]
  from step[unfolded st st'] show ?thesis
  proof (cases rule: schedule_step_cases)
    case (1 row d)
    from iloc_Inr_mem[OF 1(1)] pos 1(2) have d: "0 < d" by auto
    from 1(3) consider
        (talk) "\<not> (ct \<le> LUNCH_START \<and> ct + d > LUNCH_START)"
            "\<not> (ct \<le> COFFEE_START \<and> ct + d > COFFEE_START)"
            "s' = s @ [talk_entry row idx ct (ct + d)]" "ct' = ct + d"
      | (lunch) "ct \<le> LUNCH_START"
            "s' = s @ [lunch_break, talk_entry row idx LUNCH_END (LUNCH_END + d)]"
            "ct' = LUNCH_END + d"
      | (both) "ct \<le> LUNCH_START"
            "s' = s @ [lunch_break, coffee_break, talk_entry row idx COFFEE_END (COFFEE_END + d)]"
            "ct' = COFFEE_END + d"
      | (coffee) "ct \<le> COFFEE_START"
            "s' = s @ [coffee_break, talk_entry row idx COFFEE_END (COFFEE_END + d)]"
            "ct' = COFFEE_END + d"
      by blast
    then show ?thesis
    proof cases
      case talk
      have "talk_entry row idx ct (ct + d) \<noteq> lunch_break"
      proof
        assume "talk_entry row idx ct (ct + d) = lunch_break"
        from talk_entry_eq_lunch[OF this] talk(1) show False by (simp add: clock_values)
      qed
      moreover have "talk_entry row idx ct (ct + d) \<noteq> coffee_break"
      proof
        assume "talk_entry row idx ct (ct + d) = coffee_break"
        from talk_entry_eq_coffee[OF this] talk(2) show False by (simp add: clock_values)
      qed
      ultimately have "breaks_once (s @ [talk_entry row idx ct (ct + d)], ct + d)"
        by (intro extend_talk[OF inv' d]) (simp_all add: talk_entry_times)
      then show ?thesis unfolding st' talk(3,4) .
    next
      case lunch
      have "talk_entry row idx LUNCH_END (LUNCH_END + d) \<noteq> lunch_break"
        using talk_entry_eq_lunch[of row idx LUNCH_END "LUNCH_END + d"] by (auto simp: clock_values)
      moreover have "talk_entry row idx LUNCH_END (LUNCH_END + d) \<noteq> coffee_break"
        using talk_entry_eq_coffee[of row idx LUNCH_END "LUNCH_END + d"] by (auto simp: clock_values)
      ultimately have
        "breaks_once (s @ [lunch_break, talk_entry row idx LUNCH_END (LUNCH_END + d)], LUNCH_END + d)"
        by (intro extend_lunch[OF inv' d lunch(1)]) (simp_all add: talk_entry_times)
      then show ?thesis unfolding st' lunch(2,3) .
    next
      case both
      have "talk_entry row idx COFFEE_END (COFFEE_END + d) \<noteq> lunch_break"
        using talk_entry_eq_lunch[of row idx COFFEE_END "COFFEE_END + d"] by (auto simp: clock_values)
      moreover have "talk_entry row idx COFFEE_END (COFFEE_END + d) \<noteq> coffee_break"
        using talk_entry_eq_coffee[of row idx COFFEE_END "COFFEE_END + d"] by (auto simp: clock_values)
      ultimately have
        "breaks_once (s @ [lunch_break, coffee_break, talk_entry row idx COFFEE_END (COFFEE_END + d)],
           COFFEE_END + d)"
        by (intro extend_both[OF inv' d both(1)]) (simp_all add: talk_entry_times)
      then show ?thesis unfolding st' both(2,3) .
    next
      case coffee
      have "talk_entry row idx COFFEE_END (COFFEE_END + d) \<noteq> lunch_break"
        using talk_entry_eq_lunch[of row idx COFFEE_END "COFFEE_END + d"] by (auto simp: clock_values)
      moreover have "talk_entry row idx COFFEE_END (COFFEE_END + d) \<noteq> coffee_break"
        using talk_entry_eq_coffee[of row idx COFFEE_END "COFFEE_END + d"] by (auto simp: clock_values)
      ultimately have
        "breaks_once (s @ [coffee_break, talk_entry row idx COFFEE_END (COFFEE_END + d)], COFFEE_END + d)"
        by (intro extend_coffee[OF inv' d coffee(1)]) (simp_all add: talk_entry_times)
      then show ?thesis unfolding st' coffee(2,3) .
    qed
  qed
qed

lemma clock_follows_step:
  assumes "schedule_step df (s, ct) idx = Inr (s', ct')"
  shows "ct' = current_time_after s'"
proof -
  from talk_entry_not_break[OF assms] obtain brk t where "s' = s @ brk @ [t]" "ct' = End t"
    by blast
  then show ?thesis by (simp add: current_time_after_def)
qed

text \<open>
  C4. On a table of positive durations the finished schedule holds the lunch dictionary at
  most once and the coffee dictionary at most once, and wherever one of them stands, the
  clock at that moment (the start of the day, or the end of the entry before it) had not
  passed the start of that break.
\<close>

theorem breaks_at_most_once:
  assumes "build_schedule df order = Inr schedule" and "\<forall>r\<in>set df. 0 < TIME r"
  shows "count_list schedule lunch_break \<le> 1 \<and> count_list schedule coffee_break \<le> 1
       \<and> (\<forall>pre post. schedule = pre @ lunch_break # post
             \<longrightarrow> current_time_after pre \<le> LUNCH_START)
       \<and> (\<forall>pre post. schedule = pre @ coffee_break # post
             \<longrightarrow> current_time_after pre \<le> COFFEE_START)"
proof -
  from assms(1) obtain ct where
    loop: "schedule_loop df ([], START_TIME) order = Inr (schedule, ct)"
    by (auto simp: build_schedule_def split: sum.splits)
  have "breaks_once (schedule, ct)"
    by (rule schedule_loop_invariant[OF loop, where P = breaks_once])
       (simp add: breaks_once_def current_time_after_def, rule breaks_once_step[OF assms(2)])
  then have cnt: "count_list schedule lunch_break \<le> 1" "count_list schedule coffee_break \<le> 1"
    and grd: "guarded START_TIME schedule"
    by (simp_all add: breaks_once_def)
  have "current_time_after pre \<le> LUNCH_START" if "schedule = pre @ lunch_break # post" for pre post
    using guarded_split[of pre lunch_break post] grd that by simp
  moreover have "current_time_after pre \<le> COFFEE_START"
    if "schedule = pre @ coffee_break # post" for pre post
    using guarded_split[of pre coffee_break post] grd that by simp
  ultimately show ?thesis using cnt by blast
qed

theorem breaks_at_most_once_witness:
  "build_schedule example_table [0, 2, 1, 3, 0] =
     Inr [talk_entry (example_row 50) 0 565 625,
          talk_entry (example_row 50) 2 625 685,
          talk_entry (example_row 20) 1 685 715,
          lunch_break,
          talk_entry (example_row 50) 3 840 900,
          coffee_break,
          talk_entry (example_row 50) 0 960 1020]
   \<and> list_all (\<lambda>r. 0 < TIME r) example_table
   \<and> count_list [talk_entry (example_row 50) 0 565 625,
          talk_entry (example_row 50) 2 625 685,
          talk_entry (example_row 20) 1 685 715,
          lunch_break,
          talk_entry (example_row 50) 3 840 900,
          coffee_break,
          talk_entry (example_row 50) 0 960 1020] lunch_break \<le> 1
   \<and> current_time_after [talk_entry (example_row 50) 0 565 625,
          talk_entry (example_row 50) 2 625 685,
          talk_entry (example_row 20) 1 685 715] \<le> LUNCH_START"
proof -
  note th = breaks_at_most_once[OF example_run example_table_positive]
  from th have
    "\<forall>pre post. [talk_entry (example_row 50) 0 565 625,
          talk_entry (example_row 50) 2 625 685,
          talk_entry (example_row 20) 1 685 715,
          lunch_break,
          talk_entry (example_row 50) 3 840 900,
          coffee_break,
          talk_entry (example_row 50) 0 960 1020] = pre @ lunch_break # post
       \<longrightarrow> current_time_after pre \<le> LUNCH_START"
    by blast
  from this[rule_format, of "[talk_entry (example_row 50) 0 565 625,
          talk_entry (example_row 50) 2 625 685,
          talk_entry (example_row 20) 1 685 715]"
       "[talk_entry (example_row 50) 3 840 900, coffee_break, talk_entry (example_row 50) 0 960 1020]"]
  have "current_time_after [talk_entry (example_row 50) 0 565 625,
          talk_entry (example_row 50) 2 625 685,
          talk_entry (example_row 20) 1 685 715] \<le> LUNCH_START"
    by simp
  with th example_run example_table_positive show ?thesis
    by (simp add: list_all_iff)
qed

section \<open>Positions outside the table\<close>

lemma iloc_out_of_range:
  assumes "idx < - int (length df) \<or> int (length df) \<le> idx"
  shows "iloc df idx = Inl IndexError"
  using assms by (auto simp: iloc_def Let_def)

lemma schedule_step_out_of_range:
  assumes "idx < - int (length df) \<or> int (length df) \<le> idx"
  shows "schedule_step df st idx = Inl IndexError"
  by (cases st) (simp add: schedule_step_def iloc_out_of_range[OF assms])

lemma schedule_loop_out_of_range:
  assumes "idx \<in> set order" and "idx < - int (length df) \<or> int (length df) \<le> idx"
  shows "\<exists>e. schedule_loop df st order = Inl e"
  using assms(1)
proof (induction order arbitrary: st)
  case Nil
  then show ?case by simp
next
  case (Cons i order)
  show ?case
  proof (cases "schedule_step df st i")
    case (Inl e)
    then show ?thesis by simp
  next
    case (Inr st')
    with schedule_step_out_of_range[OF assms(2), of st] have "i \<noteq> idx" by auto
    with Cons.prems have "idx \<in> set order" by simp
    from Cons.IH[OF this, of st'] Inr show ?thesis by simp
  qed
qed

text \<open>
  The script checks nothing about \<open>order\<close>; what stops a run is \<open>df.iloc\<close>. A negative
  position within the table's length is no \<open>ID\<close> of the table and is scheduled all the
  same: with one row, \<open>order = [-1]\<close> yields a schedule whose talk has the \<open>ID\<close> -1.
\<close>

theorem unknown_id_schedules_counterexample:
  "\<not> (\<forall>df order. (\<exists>idx\<in>set order. idx \<notin> set (table_ids df))
          \<longrightarrow> (\<exists>e. build_schedule df order = Inl e))"
proof
  assume h: "\<forall>df order. (\<exists>idx\<in>set order. idx \<notin> set (table_ids df))
          \<longrightarrow> (\<exists>e. build_schedule df order = Inl e)"
  have "\<exists>idx\<in>set [- 1]. idx \<notin> set (table_ids [example_row 50])"
    by (simp add: table_ids_def)
  with h have "\<exists>e. build_schedule [example_row 50] [- 1] = Inl e" by blast
  moreover have "build_schedule [example_row 50] [- 1]
      = Inr [talk_entry (example_row 50) (- 1) (strptime_HM 9 25) (strptime_HM 10 25)]"
    by (simp add: build_schedule_def step_defs clock_defs example_row_def)
  ultimately show False by simp
qed

text \<open>Which exception ends a run, and what a position within the table schedules.\<close>

lemma dt_add_Inl: "dt_add t m = Inl e \<Longrightarrow> e = OverflowError"
  by (auto simp: dt_add_def timedelta_minutes_def split: if_splits)

lemma iloc_Inl: "iloc df idx = Inl e \<Longrightarrow> e = IndexError"
  by (auto simp: iloc_def Let_def split: if_splits)

lemma handle_lunch_Inl: "handle_lunch d st = Inl e \<Longrightarrow> e = OverflowError"
  by (cases st) (auto simp: handle_lunch_def split: if_splits sum.splits dest: dt_add_Inl)

lemma handle_coffee_Inl: "handle_coffee d st = Inl e \<Longrightarrow> e = OverflowError"
  by (cases st) (auto simp: handle_coffee_def split: if_splits sum.splits dest: dt_add_Inl)

lemma schedule_step_Inl_row:
  assumes Inr: "iloc df idx = Inr row" and "schedule_step df st idx = Inl e"
  shows "e = OverflowError"
proof -
  obtain s ct where st: "st = (s, ct)" by (cases st)
  show ?thesis
  proof (cases "dt_add ct (TIME row + 10)")
    case (Inl e')
    with assms have "e = e'" by (simp add: schedule_step_def st Let_def)
    with dt_add_Inl[OF Inl] show ?thesis by simp
  next
    case e0: (Inr end_time)
    show ?thesis
    proof (cases "handle_lunch (TIME row + 10) (s, ct, end_time)")
      case (Inl e')
      with assms e0 have "e = e'" by (simp add: schedule_step_def st Let_def)
      with handle_lunch_Inl[OF Inl] show ?thesis by simp
    next
      case l: (Inr st1)
      show ?thesis
      proof (cases "handle_coffee (TIME row + 10) st1")
        case (Inl e')
        with assms e0 l have "e = e'" by (simp add: schedule_step_def st Let_def)
        with handle_coffee_Inl[OF Inl] show ?thesis by simp
      next
        case c: (Inr st2)
        with assms e0 l show ?thesis
          by (cases st2) (simp add: schedule_step_def st Let_def)
      qed
    qed
  qed
qed

lemma schedule_step_Inl:
  assumes "schedule_step df st idx = Inl e"
  shows "e = IndexError \<or> e = OverflowError"
proof (cases "iloc df idx")
  case (Inl e')
  with assms have "e = e'" by (cases st) (simp add: schedule_step_def)
  with iloc_Inl[OF Inl] show ?thesis by simp
next
  case (Inr row)
  from schedule_step_Inl_row[OF Inr assms] show ?thesis by simp
qed

lemma schedule_loop_Inl:
  "schedule_loop df st order = Inl e \<Longrightarrow> e = IndexError \<or> e = OverflowError"
proof (induction order arbitrary: st)
  case Nil
  then show ?case by simp
next
  case (Cons i order)
  show ?case
  proof (cases "schedule_step df st i")
    case (Inl e')
    with Cons.prems have "e = e'" by simp
    with schedule_step_Inl[OF Inl] show ?thesis by simp
  next
    case (Inr st')
    with Cons.prems have "schedule_loop df st' order = Inl e" by simp
    then show ?thesis by (rule Cons.IH)
  qed
qed

lemma schedule_loop_append:
  "schedule_loop df st (xs @ ys) =
     (case schedule_loop df st xs of Inl e \<Rightarrow> Inl e | Inr st' \<Rightarrow> schedule_loop df st' ys)"
  by (induction xs arbitrary: st) (auto split: sum.splits)

lemma build_schedule_split:
  "build_schedule df (pre @ idx # post) =
     (case schedule_loop df ([], START_TIME) pre of
        Inl e \<Rightarrow> Inl e
      | Inr st \<Rightarrow>
         (case schedule_step df st idx of
            Inl e \<Rightarrow> Inl e
          | Inr st' \<Rightarrow>
             (case schedule_loop df st' post of
                Inl e \<Rightarrow> Inl e
              | Inr (schedule, current_time) \<Rightarrow> Inr schedule)))"
  by (simp add: build_schedule_def schedule_loop_append split: sum.splits)

lemma scheduled_under_its_position:
  assumes b: "build_schedule df order = Inr schedule" and i: "i \<in> set order"
  shows "\<exists>e row. e \<in> set schedule \<and> iloc df i = Inr row
           \<and> e = talk_entry row i (Start e) (End e) \<and> ID e = i
           \<and> End e = Start e + (TIME row + 10)"
proof -
  from b obtain ct where "schedule_loop df ([], START_TIME) order = Inr (schedule, ct)"
    by (auto simp: build_schedule_def split: sum.splits)
  from talks_of_loop[OF this] have
    rel: "list_all2 (\<lambda>e idx. \<exists>row. iloc df idx = Inr row
                                   \<and> e = talk_entry row idx (Start e) (End e)
                                   \<and> End e = Start e + (TIME row + 10))
               (talks_of schedule) order"
    by simp
  from i obtain k where k: "k < length order" "order ! k = i"
    by (auto simp: in_set_conv_nth)
  from rel have len: "length (talks_of schedule) = length order"
    by (rule list_all2_lengthD)
  from list_all2_nthD2[OF rel k(1)] k(2) obtain row where
    r: "iloc df i = Inr row"
       "talks_of schedule ! k = talk_entry row i (Start (talks_of schedule ! k)) (End (talks_of schedule ! k))"
       "End (talks_of schedule ! k) = Start (talks_of schedule ! k) + (TIME row + 10)"
    by auto
  have "talks_of schedule ! k \<in> set (talks_of schedule)"
    using k(1) len by simp
  then have m: "talks_of schedule ! k \<in> set schedule" by (simp add: talks_of_def)
  have "ID (talk_entry row i (Start (talks_of schedule ! k)) (End (talks_of schedule ! k))) = i"
    by (simp add: talk_entry_def)
  with r(2) have "ID (talks_of schedule ! k) = i" by simp
  with m r show ?thesis by blast
qed

text \<open>
  C5, as the code has it. A position below \<open>-len(df)\<close> or from \<open>len(df)\<close> on ends the run
  with an exception: no schedule, nothing printed, no file written, exit code 1. The
  exception is \<open>IndexError\<close> when every iteration before that position returned, and else
  the exception of the earlier iteration, \<open>IndexError\<close> or \<open>OverflowError\<close>. A position from
  \<open>-len(df)\<close> to -1 selects the row counted from the end and never raises \<open>IndexError\<close>;
  when the run returns, the schedule holds a talk for it, with that row's fields, the
  negative position as \<open>ID\<close> and a slot of \<open>TIME + 10\<close> minutes. A position from 0 to
  \<open>len(df) - 1\<close> selects the row at that place.
\<close>

theorem out_of_range_aborts:
  "(idx \<in> set order \<and> (idx < - int (length df) \<or> int (length df) \<le> idx) \<longrightarrow>
       (build_schedule df order = Inl IndexError \<or> build_schedule df order = Inl OverflowError)
     \<and> run_script writable fs df order input_line = \<lparr>stdout = [], files = fs, exit_code = 1\<rparr>)
   \<and> ((idx < - int (length df) \<or> int (length df) \<le> idx)
        \<and> schedule_loop df ([], START_TIME) pre = Inr st \<longrightarrow>
         build_schedule df (pre @ idx # post) = Inl IndexError)
   \<and> (schedule_loop df ([], START_TIME) pre = Inl e \<longrightarrow>
         build_schedule df (pre @ idx # post) = Inl e \<and> (e = IndexError \<or> e = OverflowError))
   \<and> (- int (length df) \<le> i \<and> i < 0 \<longrightarrow>
         iloc df i = Inr (df ! nat (int (length df) + i))
       \<and> schedule_step df st i \<noteq> Inl IndexError)
   \<and> (- int (length df) \<le> i \<and> i < 0 \<and> i \<in> set order
        \<and> build_schedule df order = Inr schedule \<longrightarrow>
         (\<exists>t\<in>set schedule.
            t = talk_entry (df ! nat (int (length df) + i)) i (Start t) (End t)
          \<and> ID t = i
          \<and> End t = Start t + (TIME (df ! nat (int (length df) + i)) + 10)))
   \<and> (0 \<le> i \<and> i < int (length df) \<longrightarrow> iloc df i = Inr (df ! nat i))"
proof (intro conjI impI)
  assume a: "idx \<in> set order \<and> (idx < - int (length df) \<or> int (length df) \<le> idx)"
  from schedule_loop_out_of_range[of idx order df "([], START_TIME)"] a
  obtain e where l: "schedule_loop df ([], START_TIME) order = Inl e" by blast
  then have b: "build_schedule df order = Inl e" by (simp add: build_schedule_def)
  with schedule_loop_Inl[OF l]
  show "build_schedule df order = Inl IndexError \<or> build_schedule df order = Inl OverflowError"
    by auto
  from b show "run_script writable fs df order input_line
      = \<lparr>stdout = [], files = fs, exit_code = 1\<rparr>"
    by (simp add: run_script_def)
next
  assume a: "(idx < - int (length df) \<or> int (length df) \<le> idx)
        \<and> schedule_loop df ([], START_TIME) pre = Inr st"
  then have "schedule_step df st idx = Inl IndexError"
    using schedule_step_out_of_range[of idx df st] by blast
  with a show "build_schedule df (pre @ idx # post) = Inl IndexError"
    by (simp add: build_schedule_split)
next
  assume a: "schedule_loop df ([], START_TIME) pre = Inl e"
  then show "build_schedule df (pre @ idx # post) = Inl e"
    by (simp add: build_schedule_split)
  from schedule_loop_Inl[OF a] show "e = IndexError \<or> e = OverflowError" .
next
  assume a: "- int (length df) \<le> i \<and> i < 0"
  then show r: "iloc df i = Inr (df ! nat (int (length df) + i))"
    by (simp add: iloc_def Let_def)
  show "schedule_step df st i \<noteq> Inl IndexError"
  proof
    assume "schedule_step df st i = Inl IndexError"
    from schedule_step_Inl_row[OF r this] show False by simp
  qed
next
  assume a: "- int (length df) \<le> i \<and> i < 0 \<and> i \<in> set order
        \<and> build_schedule df order = Inr schedule"
  then have r: "iloc df i = Inr (df ! nat (int (length df) + i))"
    by (simp add: iloc_def Let_def)
  from a scheduled_under_its_position[of df order schedule i] obtain t row where
    t: "t \<in> set schedule" "iloc df i = Inr row" "t = talk_entry row i (Start t) (End t)"
      "ID t = i" "End t = Start t + (TIME row + 10)"
    by blast
  from r t(2) have "row = df ! nat (int (length df) + i)" by simp
  with t(1,3,4,5) show "\<exists>t\<in>set schedule.
            t = talk_entry (df ! nat (int (length df) + i)) i (Start t) (End t)
          \<and> ID t = i
          \<and> End t = Start t + (TIME (df ! nat (int (length df) + i)) + 10)"
    by blast
next
  assume "0 \<le> i \<and> i < int (length df)"
  then show "iloc df i = Inr (df ! nat i)"
    by (auto simp: iloc_def Let_def)
qed

theorem out_of_range_aborts_witness:
  "build_schedule example_table [0, 4] = Inl IndexError
   \<and> run_script (\<lambda>f. True) Map.empty example_table [0, 4] (Some (lit ''yes''))
       = \<lparr>stdout = [], files = Map.empty, exit_code = 1\<rparr>
   \<and> iloc example_table (- 1) = Inr (example_row 50)
   \<and> build_schedule example_table [- 1] = Inr [talk_entry (example_row 50) (- 1) 565 625]
   \<and> ID (talk_entry (example_row 50) (- 1) 565 625) = - 1
   \<and> iloc example_table 1 = Inr (example_row 20)"
proof -
  have pre: "schedule_loop example_table ([], START_TIME) [0]
      = Inr ([talk_entry (example_row 50) 0 565 625], 625)"
    by (simp add: step_defs clock_defs example_table_def example_row_def talk_entry_def)
  have neg: "build_schedule example_table [- 1] = Inr [talk_entry (example_row 50) (- 1) 565 625]"
    by (simp add: build_schedule_def step_defs clock_defs example_table_def example_row_def
        talk_entry_def)
  have len: "length example_table = 4" by (simp add: example_table_def)
  note a = out_of_range_aborts[where idx = 4 and order = "[0, 4]" and df = example_table
      and writable = "\<lambda>f. True" and fs = Map.empty and input_line = "Some (lit ''yes'')"
      and pre = "[0]" and post = "[]" and st = "([talk_entry (example_row 50) 0 565 625], 625)"
      and i = 1]
  note b = out_of_range_aborts[where order = "[- 1]" and df = example_table and i = "- 1"
      and schedule = "[talk_entry (example_row 50) (- 1) 565 625]"]
  from a pre len have 1: "build_schedule example_table [0, 4] = Inl IndexError"
    "run_script (\<lambda>f. True) Map.empty example_table [0, 4] (Some (lit ''yes''))
       = \<lparr>stdout = [], files = Map.empty, exit_code = 1\<rparr>"
    "iloc example_table 1 = Inr (example_row 20)"
    by (simp_all add: example_table_def)
  from b neg len have 2: "iloc example_table (- 1) = Inr (example_row 50)"
    "ID (talk_entry (example_row 50) (- 1) 565 625) = - 1"
    by (simp_all add: example_table_def)
  from 1 2 neg show ?thesis by simp
qed

section \<open>The confirmation\<close>

lemma lit_yes: "lit ''yes'' = [121, 101, 115]" by (simp add: lit_def)




section \<open>What the renderer emits for a break\<close>

lemma py_in_set: "py_in needle hay \<Longrightarrow> set needle \<subseteq> set hay"
proof (induction hay)
  case Nil
  then show ?case by simp
next
  case (Cons c cs)
  from Cons.prems have "take (length needle) (c # cs) = needle \<or> py_in needle cs" by simp
  then show ?case
  proof
    assume "take (length needle) (c # cs) = needle"
    then have "set needle = set (take (length needle) (c # cs))" by simp
    also have "\<dots> \<subseteq> set (c # cs)" by (rule set_take_subset)
    finally show ?thesis .
  next
    assume "py_in needle cs"
    with Cons.IH show ?thesis by auto
  qed
qed

lemma two_digits_range: "n < 100 \<Longrightarrow> set (two_digits n) \<subseteq> {48..57}"
  by (auto simp: two_digits_def digit_def)

lemma strftime_digits:
  "set (strftime_H t) \<subseteq> {48..57}" "set (strftime_M t) \<subseteq> {48..57}"
proof -
  have "hour_of t < 100" by (simp add: hour_of_def) 
  then show "set (strftime_H t) \<subseteq> {48..57}" unfolding strftime_H_def by (rule two_digits_range)
  have "minute_of t < 100" by (simp add: minute_of_def)
  then show "set (strftime_M t) \<subseteq> {48..57}" unfolding strftime_M_def by (rule two_digits_range)
qed

lemma caption_times_chars: "set (caption_times s) \<subseteq> {48..57} \<union> {32, 92, 44, 104, 8212}"
  using strftime_digits[of "Start s"] strftime_digits[of "End s"]
  by (auto simp: caption_times_def lit_def bs_def)

lemma break_speakers:
  "py_in (lit ''Lunch'') (Speaker lunch_break)"
  "\<not> py_in (lit ''Lunch'') (Speaker coffee_break)"
  "py_in (lit ''Coffee'') (Speaker coffee_break)"
  by (simp_all add: lunch_break_def coffee_break_def lit_def)

lemma coffee_fragments_no_tabularx:
  assumes "f \<in> set (coffee_fragments s)"
  shows "\<not> py_in (lit ''tabularx'') f"
proof -
  have t: "116 \<in> set (lit ''tabularx'')" by (simp add: lit_def)
  from assms consider
      (a) "f = bs @ lit ''multicolumn{3}{@'' @ lit ''{}l@'' @ lit ''{}}{'' @ bs
            @ lit ''begin{separatorbox}[colback=brand!6,colframe=brand!30]''"
    | (b) "f = caption_times s @ bs @ lit ''quad Pause caf'' @ [233]"
    | (c) "f = bs @ lit ''end{separatorbox}}'' @ bs @ bs @ lit ''[2mm]''"
    by (auto simp: coffee_fragments_def)
  then show ?thesis
  proof cases
    case a
    then show ?thesis by (simp add: lit_def bs_def)
  next
    case b
    have "116 \<notin> set f"
      using caption_times_chars[of s] unfolding b by (auto simp: lit_def bs_def)
    with t py_in_set[of "lit ''tabularx''" f] show ?thesis by auto
  next
    case c
    then show ?thesis by (simp add: lit_def bs_def)
  qed
qed

lemma break_entry_fragments:
  "(py_in (lit ''Lunch'') (Speaker s) \<longrightarrow>
      entry_fragments time_col_width speaker_col_width s =
        [bs @ lit ''bottomrule'' @ bs @ bs @ lit ''[-6mm]'',
         bs @ lit ''end{tabularx}'' @ [10],
         bs @ lit ''begin{separatorbox}[colback=accent!10,colframe=accent!50]'',
         caption_times s @ bs @ lit ''quad Pause d'' @ [233] @ lit ''jeuner'',
         bs @ lit ''end{separatorbox}'' @ [10],
         bs @ lit ''noindent'' @ bs @ lit ''textbf{Apr'' @ [232] @ lit ''s-midi}'' @ bs @ lit ''par''
           @ bs @ lit ''smallskip'',
         begin_tabularx time_col_width speaker_col_width,
         bs @ lit ''toprule'']
    \<and> py_in (bs @ lit ''end{tabularx}'') (entry_fragments time_col_width speaker_col_width s ! 1)
    \<and> py_in (bs @ lit ''begin{tabularx}'') (entry_fragments time_col_width speaker_col_width s ! 6)
    \<and> entry_fragments time_col_width speaker_col_width s ! 6
        = latex_lines [] time_col_width speaker_col_width ! 3)
   \<and> (\<not> py_in (lit ''Lunch'') (Speaker s) \<and> py_in (lit ''Coffee'') (Speaker s) \<longrightarrow>
        join_nl (entry_fragments time_col_width speaker_col_width s) =
          bs @ lit ''multicolumn{3}{@'' @ lit ''{}l@'' @ lit ''{}}{'' @ bs
            @ lit ''begin{separatorbox}[colback=brand!6,colframe=brand!30]'' @ [10]
            @ caption_times s @ bs @ lit ''quad Pause caf'' @ [233] @ [10]
            @ bs @ lit ''end{separatorbox}}'' @ bs @ bs @ lit ''[2mm]''
      \<and> (\<forall>f\<in>set (entry_fragments time_col_width speaker_col_width s).
            \<not> py_in (lit ''tabularx'') f))
   \<and> caption_times s =
        lit '' '' @ strftime_H (Start s) @ bs @ lit '',h'' @ bs @ lit '','' @ strftime_M (Start s)
        @ lit '' '' @ [8212] @ lit '' '' @ strftime_H (End s) @ bs @ lit '',h'' @ bs @ lit '',''
        @ strftime_M (End s) @ lit '' ''
   \<and> py_in (lit ''Lunch'') (Speaker lunch_break)
   \<and> \<not> py_in (lit ''Lunch'') (Speaker coffee_break)
   \<and> py_in (lit ''Coffee'') (Speaker coffee_break)"
proof (intro conjI impI ballI)
  assume l: "py_in (lit ''Lunch'') (Speaker s)"
  then show "entry_fragments time_col_width speaker_col_width s =
        [bs @ lit ''bottomrule'' @ bs @ bs @ lit ''[-6mm]'',
         bs @ lit ''end{tabularx}'' @ [10],
         bs @ lit ''begin{separatorbox}[colback=accent!10,colframe=accent!50]'',
         caption_times s @ bs @ lit ''quad Pause d'' @ [233] @ lit ''jeuner'',
         bs @ lit ''end{separatorbox}'' @ [10],
         bs @ lit ''noindent'' @ bs @ lit ''textbf{Apr'' @ [232] @ lit ''s-midi}'' @ bs @ lit ''par''
           @ bs @ lit ''smallskip'',
         begin_tabularx time_col_width speaker_col_width,
         bs @ lit ''toprule'']"
    by (simp add: entry_fragments_def lunch_fragments_def)
  from l show "py_in (bs @ lit ''end{tabularx}'')
      (entry_fragments time_col_width speaker_col_width s ! 1)"
    by (simp add: entry_fragments_def lunch_fragments_def lit_def bs_def)
  from l show "py_in (bs @ lit ''begin{tabularx}'')
      (entry_fragments time_col_width speaker_col_width s ! 6)"
    by (simp add: entry_fragments_def lunch_fragments_def begin_tabularx_def lit_def bs_def)
  from l show "entry_fragments time_col_width speaker_col_width s ! 6
        = latex_lines [] time_col_width speaker_col_width ! 3"
    by (simp add: entry_fragments_def lunch_fragments_def latex_lines_def)
next
  assume c: "\<not> py_in (lit ''Lunch'') (Speaker s) \<and> py_in (lit ''Coffee'') (Speaker s)"
  then show "join_nl (entry_fragments time_col_width speaker_col_width s) =
          bs @ lit ''multicolumn{3}{@'' @ lit ''{}l@'' @ lit ''{}}{'' @ bs
            @ lit ''begin{separatorbox}[colback=brand!6,colframe=brand!30]'' @ [10]
            @ caption_times s @ bs @ lit ''quad Pause caf'' @ [233] @ [10]
            @ bs @ lit ''end{separatorbox}}'' @ bs @ bs @ lit ''[2mm]''"
    by (simp add: entry_fragments_def coffee_fragments_def)
  fix f
  assume "f \<in> set (entry_fragments time_col_width speaker_col_width s)"
  with c have "f \<in> set (coffee_fragments s)" by (simp add: entry_fragments_def)
  then show "\<not> py_in (lit ''tabularx'') f" by (rule coffee_fragments_no_tabularx)
next
  show "caption_times s =
        lit '' '' @ strftime_H (Start s) @ bs @ lit '',h'' @ bs @ lit '','' @ strftime_M (Start s)
        @ lit '' '' @ [8212] @ lit '' '' @ strftime_H (End s) @ bs @ lit '',h'' @ bs @ lit '',''
        @ strftime_M (End s) @ lit '' ''"
    by (simp add: caption_times_def)
qed (rule break_speakers)+

lemma join_nl_Cons: "xs \<noteq> [] \<Longrightarrow> join_nl (p # xs) = p @ [10] @ join_nl xs"
  by (cases xs) simp_all

lemma join_nl_snoc: "xs \<noteq> [] \<Longrightarrow> join_nl (xs @ [q]) = join_nl xs @ [10] @ q"
proof (induction xs rule: join_nl.induct)
  case 1
  then show ?case by simp
next
  case (2 p)
  show ?case by simp
next
  case (3 p r ps)
  then show ?case by simp
qed

lemma latex_lines_nonempty: "latex_lines schedule time_col_width speaker_col_width \<noteq> []"
  by (simp add: latex_lines_def)

lemma full_tex_layout:
  "full_tex schedule time_col_width speaker_col_width =
     header @ [10] @ join_nl (latex_lines schedule time_col_width speaker_col_width) @ [10] @ footer"
proof -
  let ?l = "latex_lines schedule time_col_width speaker_col_width"
  have "join_nl ([header] @ ?l @ [footer]) = header @ [10] @ join_nl (?l @ [footer])"
    using latex_lines_nonempty[of schedule time_col_width speaker_col_width]
    by (simp add: join_nl_Cons)
  also have "join_nl (?l @ [footer]) = join_nl ?l @ [10] @ footer"
    by (rule join_nl_snoc[OF latex_lines_nonempty])
  finally show ?thesis by (simp add: full_tex_def)
qed

lemma latex_lines_empty:
  "latex_lines [] time_col_width speaker_col_width =
     [lit ''%Schedule block'',
      bs @ lit ''begin{tcolorbox}[enhanced, breakable, colback=white, colframe=brand!50, boxrule=0.6pt, arc=2mm, left=3mm, right=3mm, top=2mm, bottom=2mm]''
        @ bs @ lit ''vspace{1mm}'',
      bs @ lit ''noindent'' @ bs @ lit ''textbf{Matin'' @ [233] @ lit ''e}'' @ bs @ lit ''par''
        @ bs @ lit ''smallskip'',
      begin_tabularx time_col_width speaker_col_width,
      bs @ lit ''toprule'',
      bs @ lit ''bottomrule'' @ [10] @ bs @ lit ''end{tabularx}'' @ [10] @ bs
        @ lit ''vspace{1mm}'' @ [10] @ bs @ lit ''end{tcolorbox}'']"
  by (simp add: latex_lines_def)

lemma latex_lines_link:
  "latex_lines schedule time_col_width speaker_col_width =
     butlast (latex_lines [] time_col_width speaker_col_width)
     @ concat (map (entry_fragments time_col_width speaker_col_width) schedule)
     @ [last (latex_lines [] time_col_width speaker_col_width)]"
  by (simp add: latex_lines_def)

lemma latex_lines_split:
  "latex_lines (pre @ s # post) time_col_width speaker_col_width =
     (butlast (latex_lines [] time_col_width speaker_col_width)
      @ concat (map (entry_fragments time_col_width speaker_col_width) pre))
     @ entry_fragments time_col_width speaker_col_width s
     @ (concat (map (entry_fragments time_col_width speaker_col_width) post)
        @ [last (latex_lines [] time_col_width speaker_col_width)])"
  by (simp add: latex_lines_def)

lemma open_blocks_append:
  "open_blocks w1 w2 (xs @ ys) = open_blocks w1 w2 xs + open_blocks w1 w2 ys"
  by (simp add: open_blocks_def)

lemma open_blocks_lunch: "open_blocks w1 w2 (lunch_fragments w1 w2 s) = 0"
  by (simp add: open_blocks_def lunch_fragments_def begin_tabularx_def caption_times_def
      lit_def bs_def)

lemma open_blocks_coffee: "open_blocks w1 w2 (coffee_fragments s) = 0"
  by (simp add: open_blocks_def coffee_fragments_def begin_tabularx_def caption_times_def
      lit_def bs_def)

lemma open_blocks_talk: "open_blocks w1 w2 (talk_fragments s) = 0"
  by (simp add: open_blocks_def talk_fragments_def begin_tabularx_def lit_def bs_def)

lemma open_blocks_entry: "open_blocks w1 w2 (entry_fragments w1 w2 s) = 0"
  by (simp add: entry_fragments_def open_blocks_lunch open_blocks_coffee open_blocks_talk)

lemma open_blocks_entries: "open_blocks w1 w2 (concat (map (entry_fragments w1 w2) pre)) = 0"
  by (induction pre) (simp_all add: open_blocks_append open_blocks_entry, simp add: open_blocks_def)

lemma open_blocks_opening: "open_blocks w1 w2 (butlast (latex_lines [] w1 w2)) = 1"
  by (simp add: open_blocks_def latex_lines_def begin_tabularx_def lit_def bs_def)

lemma open_blocks_before:
  "open_blocks w1 w2 (butlast (latex_lines [] w1 w2) @ concat (map (entry_fragments w1 w2) pre)) = 1"
  by (simp only: open_blocks_append open_blocks_entries open_blocks_opening)

text \<open>
  C6. An entry whose speaker holds \<open>Lunch\<close> gives eight fragments: the closing rule and
  \<open>\end{tabularx}\<close>, a separator box whose line is the start and end time and the caption
  of the lunch break, the heading of the afternoon, and the same \<open>\begin{tabularx}\<close> line
  that opened the first block, followed by \<open>\toprule\<close>. An entry whose speaker holds
  \<open>Coffee\<close> and not \<open>Lunch\<close> gives three fragments that join into one \<open>\multicolumn{3}\<close>
  cell around a separator box with the times and the caption of the coffee break; none of them
  mentions \<open>tabularx\<close>. The two break dictionaries of the scheduler fall under the first and
  the second case.

  The renderer puts these fragments into the document: the list \<open>latex\<close> is the five opening
  lines, then the fragments of the entries of the schedule in their order, then the closing
  line; the fragments of an entry come when exactly one \<open>tabularx\<close> block is open and leave
  exactly one open; the text returned, and written when a file name is given, is the header,
  the lines of \<open>latex\<close> and the footer, one newline between two of them.
\<close>

theorem break_fragments:
  "((py_in (lit ''Lunch'') (Speaker s) \<longrightarrow>
       entry_fragments time_col_width speaker_col_width s =
         [bs @ lit ''bottomrule'' @ bs @ bs @ lit ''[-6mm]'',
          bs @ lit ''end{tabularx}'' @ [10],
          bs @ lit ''begin{separatorbox}[colback=accent!10,colframe=accent!50]'',
          caption_times s @ bs @ lit ''quad Pause d'' @ [233] @ lit ''jeuner'',
          bs @ lit ''end{separatorbox}'' @ [10],
          bs @ lit ''noindent'' @ bs @ lit ''textbf{Apr'' @ [232] @ lit ''s-midi}'' @ bs @ lit ''par''
            @ bs @ lit ''smallskip'',
          begin_tabularx time_col_width speaker_col_width,
          bs @ lit ''toprule'']
     \<and> py_in (bs @ lit ''end{tabularx}'') (entry_fragments time_col_width speaker_col_width s ! 1)
     \<and> py_in (bs @ lit ''begin{tabularx}'') (entry_fragments time_col_width speaker_col_width s ! 6)
     \<and> entry_fragments time_col_width speaker_col_width s ! 6
         = latex_lines [] time_col_width speaker_col_width ! 3)
    \<and> (\<not> py_in (lit ''Lunch'') (Speaker s) \<and> py_in (lit ''Coffee'') (Speaker s) \<longrightarrow>
         join_nl (entry_fragments time_col_width speaker_col_width s) =
           bs @ lit ''multicolumn{3}{@'' @ lit ''{}l@'' @ lit ''{}}{'' @ bs
             @ lit ''begin{separatorbox}[colback=brand!6,colframe=brand!30]'' @ [10]
             @ caption_times s @ bs @ lit ''quad Pause caf'' @ [233] @ [10]
             @ bs @ lit ''end{separatorbox}}'' @ bs @ bs @ lit ''[2mm]''
       \<and> (\<forall>f\<in>set (entry_fragments time_col_width speaker_col_width s).
             \<not> py_in (lit ''tabularx'') f))
    \<and> caption_times s =
         lit '' '' @ strftime_H (Start s) @ bs @ lit '',h'' @ bs @ lit '','' @ strftime_M (Start s)
         @ lit '' '' @ [8212] @ lit '' '' @ strftime_H (End s) @ bs @ lit '',h'' @ bs @ lit '',''
         @ strftime_M (End s) @ lit '' ''
    \<and> py_in (lit ''Lunch'') (Speaker lunch_break)
    \<and> \<not> py_in (lit ''Lunch'') (Speaker coffee_break)
    \<and> py_in (lit ''Coffee'') (Speaker coffee_break))
   \<and> latex_lines schedule time_col_width speaker_col_width =
       butlast (latex_lines [] time_col_width speaker_col_width)
       @ concat (map (entry_fragments time_col_width speaker_col_width) schedule)
       @ [last (latex_lines [] time_col_width speaker_col_width)]
   \<and> latex_lines [] time_col_width speaker_col_width =
       [lit ''%Schedule block'',
        bs @ lit ''begin{tcolorbox}[enhanced, breakable, colback=white, colframe=brand!50, boxrule=0.6pt, arc=2mm, left=3mm, right=3mm, top=2mm, bottom=2mm]''
          @ bs @ lit ''vspace{1mm}'',
        bs @ lit ''noindent'' @ bs @ lit ''textbf{Matin'' @ [233] @ lit ''e}'' @ bs @ lit ''par''
          @ bs @ lit ''smallskip'',
        begin_tabularx time_col_width speaker_col_width,
        bs @ lit ''toprule'',
        bs @ lit ''bottomrule'' @ [10] @ bs @ lit ''end{tabularx}'' @ [10] @ bs
          @ lit ''vspace{1mm}'' @ [10] @ bs @ lit ''end{tcolorbox}'']
   \<and> latex_lines (pre @ s # post) time_col_width speaker_col_width =
       (butlast (latex_lines [] time_col_width speaker_col_width)
        @ concat (map (entry_fragments time_col_width speaker_col_width) pre))
       @ entry_fragments time_col_width speaker_col_width s
       @ (concat (map (entry_fragments time_col_width speaker_col_width) post)
          @ [last (latex_lines [] time_col_width speaker_col_width)])
   \<and> open_blocks time_col_width speaker_col_width
        (butlast (latex_lines [] time_col_width speaker_col_width)
         @ concat (map (entry_fragments time_col_width speaker_col_width) pre)) = 1
   \<and> open_blocks time_col_width speaker_col_width
        (entry_fragments time_col_width speaker_col_width s) = 0
   \<and> full_tex schedule time_col_width speaker_col_width =
       header @ [10] @ join_nl (latex_lines schedule time_col_width speaker_col_width)
       @ [10] @ footer
   \<and> generate_jdd_latex writable fs schedule time_col_width speaker_col_width None =
       Inr (fs, full_tex schedule time_col_width speaker_col_width)
   \<and> (f \<noteq> [] \<and> writable f \<longrightarrow>
        generate_jdd_latex writable fs schedule time_col_width speaker_col_width (Some f) =
          Inr (fs(f \<mapsto> full_tex schedule time_col_width speaker_col_width),
               full_tex schedule time_col_width speaker_col_width))"
proof (rule conjI)
  show "(py_in (lit ''Lunch'') (Speaker s) \<longrightarrow>
       entry_fragments time_col_width speaker_col_width s =
         [bs @ lit ''bottomrule'' @ bs @ bs @ lit ''[-6mm]'',
          bs @ lit ''end{tabularx}'' @ [10],
          bs @ lit ''begin{separatorbox}[colback=accent!10,colframe=accent!50]'',
          caption_times s @ bs @ lit ''quad Pause d'' @ [233] @ lit ''jeuner'',
          bs @ lit ''end{separatorbox}'' @ [10],
          bs @ lit ''noindent'' @ bs @ lit ''textbf{Apr'' @ [232] @ lit ''s-midi}'' @ bs @ lit ''par''
            @ bs @ lit ''smallskip'',
          begin_tabularx time_col_width speaker_col_width,
          bs @ lit ''toprule'']
     \<and> py_in (bs @ lit ''end{tabularx}'') (entry_fragments time_col_width speaker_col_width s ! 1)
     \<and> py_in (bs @ lit ''begin{tabularx}'') (entry_fragments time_col_width speaker_col_width s ! 6)
     \<and> entry_fragments time_col_width speaker_col_width s ! 6
         = latex_lines [] time_col_width speaker_col_width ! 3)
    \<and> (\<not> py_in (lit ''Lunch'') (Speaker s) \<and> py_in (lit ''Coffee'') (Speaker s) \<longrightarrow>
         join_nl (entry_fragments time_col_width speaker_col_width s) =
           bs @ lit ''multicolumn{3}{@'' @ lit ''{}l@'' @ lit ''{}}{'' @ bs
             @ lit ''begin{separatorbox}[colback=brand!6,colframe=brand!30]'' @ [10]
             @ caption_times s @ bs @ lit ''quad Pause caf'' @ [233] @ [10]
             @ bs @ lit ''end{separatorbox}}'' @ bs @ bs @ lit ''[2mm]''
       \<and> (\<forall>f\<in>set (entry_fragments time_col_width speaker_col_width s).
             \<not> py_in (lit ''tabularx'') f))
    \<and> caption_times s =
         lit '' '' @ strftime_H (Start s) @ bs @ lit '',h'' @ bs @ lit '','' @ strftime_M (Start s)
         @ lit '' '' @ [8212] @ lit '' '' @ strftime_H (End s) @ bs @ lit '',h'' @ bs @ lit '',''
         @ strftime_M (End s) @ lit '' ''
    \<and> py_in (lit ''Lunch'') (Speaker lunch_break)
    \<and> \<not> py_in (lit ''Lunch'') (Speaker coffee_break)
    \<and> py_in (lit ''Coffee'') (Speaker coffee_break)"
    by (rule break_entry_fragments)
next
  have g1: "generate_jdd_latex writable fs schedule time_col_width speaker_col_width None =
       Inr (fs, full_tex schedule time_col_width speaker_col_width)"
    by (simp add: generate_jdd_latex_def Let_def)
  have g2: "f \<noteq> [] \<and> writable f \<longrightarrow>
        generate_jdd_latex writable fs schedule time_col_width speaker_col_width (Some f) =
          Inr (fs(f \<mapsto> full_tex schedule time_col_width speaker_col_width),
               full_tex schedule time_col_width speaker_col_width)"
    by (simp add: generate_jdd_latex_def Let_def)
  note parts = latex_lines_link[of schedule time_col_width speaker_col_width]
    latex_lines_empty[of time_col_width speaker_col_width]
    latex_lines_split[of pre s post time_col_width speaker_col_width]
    open_blocks_before[of time_col_width speaker_col_width pre]
    open_blocks_entry[of time_col_width speaker_col_width s]
    full_tex_layout[of schedule time_col_width speaker_col_width]
    g1 g2
  show "latex_lines schedule time_col_width speaker_col_width =
       butlast (latex_lines [] time_col_width speaker_col_width)
       @ concat (map (entry_fragments time_col_width speaker_col_width) schedule)
       @ [last (latex_lines [] time_col_width speaker_col_width)]
   \<and> latex_lines [] time_col_width speaker_col_width =
       [lit ''%Schedule block'',
        bs @ lit ''begin{tcolorbox}[enhanced, breakable, colback=white, colframe=brand!50, boxrule=0.6pt, arc=2mm, left=3mm, right=3mm, top=2mm, bottom=2mm]''
          @ bs @ lit ''vspace{1mm}'',
        bs @ lit ''noindent'' @ bs @ lit ''textbf{Matin'' @ [233] @ lit ''e}'' @ bs @ lit ''par''
          @ bs @ lit ''smallskip'',
        begin_tabularx time_col_width speaker_col_width,
        bs @ lit ''toprule'',
        bs @ lit ''bottomrule'' @ [10] @ bs @ lit ''end{tabularx}'' @ [10] @ bs
          @ lit ''vspace{1mm}'' @ [10] @ bs @ lit ''end{tcolorbox}'']
   \<and> latex_lines (pre @ s # post) time_col_width speaker_col_width =
       (butlast (latex_lines [] time_col_width speaker_col_width)
        @ concat (map (entry_fragments time_col_width speaker_col_width) pre))
       @ entry_fragments time_col_width speaker_col_width s
       @ (concat (map (entry_fragments time_col_width speaker_col_width) post)
          @ [last (latex_lines [] time_col_width speaker_col_width)])
   \<and> open_blocks time_col_width speaker_col_width
        (butlast (latex_lines [] time_col_width speaker_col_width)
         @ concat (map (entry_fragments time_col_width speaker_col_width) pre)) = 1
   \<and> open_blocks time_col_width speaker_col_width
        (entry_fragments time_col_width speaker_col_width s) = 0
   \<and> full_tex schedule time_col_width speaker_col_width =
       header @ [10] @ join_nl (latex_lines schedule time_col_width speaker_col_width)
       @ [10] @ footer
   \<and> generate_jdd_latex writable fs schedule time_col_width speaker_col_width None =
       Inr (fs, full_tex schedule time_col_width speaker_col_width)
   \<and> (f \<noteq> [] \<and> writable f \<longrightarrow>
        generate_jdd_latex writable fs schedule time_col_width speaker_col_width (Some f) =
          Inr (fs(f \<mapsto> full_tex schedule time_col_width speaker_col_width),
               full_tex schedule time_col_width speaker_col_width))"
    by (intro conjI) (rule parts)+
qed

theorem break_fragments_witness:
  "py_in (lit ''Lunch'') (Speaker lunch_break)
   \<and> entry_fragments (lit ''12mm'') (lit ''48mm'') lunch_break ! 3
       = lit '' 12'' @ bs @ lit '',h'' @ bs @ lit '',00 '' @ [8212] @ lit '' 14'' @ bs @ lit '',h''
         @ bs @ lit '',00 '' @ bs @ lit ''quad Pause d'' @ [233] @ lit ''jeuner''
   \<and> entry_fragments (lit ''12mm'') (lit ''48mm'') lunch_break ! 6
       = bs @ lit ''begin{tabularx}{'' @ bs @ lit ''linewidth}{@'' @ lit ''{}>{'' @ bs
         @ lit ''bfseries}p{12mm} >{'' @ bs @ lit ''raggedright'' @ bs
         @ lit ''arraybackslash}p{48mm} X@'' @ lit ''{}}''
   \<and> \<not> py_in (lit ''Lunch'') (Speaker coffee_break)
   \<and> py_in (lit ''Coffee'') (Speaker coffee_break)
   \<and> join_nl (entry_fragments (lit ''12mm'') (lit ''48mm'') coffee_break) =
          bs @ lit ''multicolumn{3}{@'' @ lit ''{}l@'' @ lit ''{}}{'' @ bs
            @ lit ''begin{separatorbox}[colback=brand!6,colframe=brand!30]'' @ [10]
            @ lit '' 15'' @ bs @ lit '',h'' @ bs @ lit '',40 '' @ [8212] @ lit '' 16'' @ bs
            @ lit '',h'' @ bs @ lit '',00 '' @ bs @ lit ''quad Pause caf'' @ [233] @ [10]
            @ bs @ lit ''end{separatorbox}}'' @ bs @ bs @ lit ''[2mm]''
   \<and> latex_lines [talk_entry (example_row 50) 0 565 625, lunch_break, coffee_break]
        (lit ''12mm'') (lit ''48mm'') =
       (butlast (latex_lines [] (lit ''12mm'') (lit ''48mm''))
        @ concat (map (entry_fragments (lit ''12mm'') (lit ''48mm''))
                   [talk_entry (example_row 50) 0 565 625]))
       @ entry_fragments (lit ''12mm'') (lit ''48mm'') lunch_break
       @ (concat (map (entry_fragments (lit ''12mm'') (lit ''48mm'')) [coffee_break])
          @ [last (latex_lines [] (lit ''12mm'') (lit ''48mm''))])
   \<and> open_blocks (lit ''12mm'') (lit ''48mm'')
        (butlast (latex_lines [] (lit ''12mm'') (lit ''48mm''))
         @ concat (map (entry_fragments (lit ''12mm'') (lit ''48mm''))
                    [talk_entry (example_row 50) 0 565 625])) = 1
   \<and> generate_jdd_latex (\<lambda>f. True) Map.empty [lunch_break] (lit ''12mm'') (lit ''48mm'')
        (Some (lit ''jdd_schedule.tex'')) =
       Inr ([lit ''jdd_schedule.tex'' \<mapsto> full_tex [lunch_break] (lit ''12mm'') (lit ''48mm'')],
            full_tex [lunch_break] (lit ''12mm'') (lit ''48mm''))"
proof -
  have ct: "caption_times lunch_break
      = lit '' 12'' @ bs @ lit '',h'' @ bs @ lit '',00 '' @ [8212] @ lit '' 14'' @ bs @ lit '',h''
         @ bs @ lit '',00 ''"
    "caption_times coffee_break
      = lit '' 15'' @ bs @ lit '',h'' @ bs @ lit '',40 '' @ [8212] @ lit '' 16'' @ bs
            @ lit '',h'' @ bs @ lit '',00 ''"
    by (simp_all add: caption_times_def strftime_H_def strftime_M_def two_digits_def digit_def
        hour_of_def minute_of_def break_times lit_def bs_def)
  have bt: "begin_tabularx (lit ''12mm'') (lit ''48mm'')
       = bs @ lit ''begin{tabularx}{'' @ bs @ lit ''linewidth}{@'' @ lit ''{}>{'' @ bs
         @ lit ''bfseries}p{12mm} >{'' @ bs @ lit ''raggedright'' @ bs
         @ lit ''arraybackslash}p{48mm} X@'' @ lit ''{}}''"
    by (simp add: begin_tabularx_def lit_def)
  have n: "lit ''jdd_schedule.tex'' \<noteq> []" by (simp add: lit_def)
  note l = break_fragments[where s = lunch_break and time_col_width = "lit ''12mm''"
      and speaker_col_width = "lit ''48mm''" and pre = "[talk_entry (example_row 50) 0 565 625]"
      and post = "[coffee_break]" and schedule = "[lunch_break]" and writable = "\<lambda>f. True"
      and fs = Map.empty and f = "lit ''jdd_schedule.tex''"]
  note c = break_fragments[where s = coffee_break and time_col_width = "lit ''12mm''"
      and speaker_col_width = "lit ''48mm''" and pre = "[]" and post = "[]"
      and schedule = "[]" and writable = "\<lambda>f. True" and fs = Map.empty and f = "[]"]
  from conjunct1[OF l] conjunct1[OF c] have old:
    "py_in (lit ''Lunch'') (Speaker lunch_break)
     \<and> entry_fragments (lit ''12mm'') (lit ''48mm'') lunch_break ! 3
         = lit '' 12'' @ bs @ lit '',h'' @ bs @ lit '',00 '' @ [8212] @ lit '' 14'' @ bs @ lit '',h''
           @ bs @ lit '',00 '' @ bs @ lit ''quad Pause d'' @ [233] @ lit ''jeuner''
     \<and> entry_fragments (lit ''12mm'') (lit ''48mm'') lunch_break ! 6
         = bs @ lit ''begin{tabularx}{'' @ bs @ lit ''linewidth}{@'' @ lit ''{}>{'' @ bs
           @ lit ''bfseries}p{12mm} >{'' @ bs @ lit ''raggedright'' @ bs
           @ lit ''arraybackslash}p{48mm} X@'' @ lit ''{}}''
     \<and> \<not> py_in (lit ''Lunch'') (Speaker coffee_break)
     \<and> py_in (lit ''Coffee'') (Speaker coffee_break)
     \<and> join_nl (entry_fragments (lit ''12mm'') (lit ''48mm'') coffee_break) =
            bs @ lit ''multicolumn{3}{@'' @ lit ''{}l@'' @ lit ''{}}{'' @ bs
              @ lit ''begin{separatorbox}[colback=brand!6,colframe=brand!30]'' @ [10]
              @ lit '' 15'' @ bs @ lit '',h'' @ bs @ lit '',40 '' @ [8212] @ lit '' 16'' @ bs
              @ lit '',h'' @ bs @ lit '',00 '' @ bs @ lit ''quad Pause caf'' @ [233] @ [10]
              @ bs @ lit ''end{separatorbox}}'' @ bs @ bs @ lit ''[2mm]''"
    by (simp add: ct bt)
  note ln = conjunct2[OF l]
  from ln[THEN conjunct2, THEN conjunct2, THEN conjunct1]
  have split: "latex_lines [talk_entry (example_row 50) 0 565 625, lunch_break, coffee_break]
        (lit ''12mm'') (lit ''48mm'') =
       (butlast (latex_lines [] (lit ''12mm'') (lit ''48mm''))
        @ concat (map (entry_fragments (lit ''12mm'') (lit ''48mm''))
                   [talk_entry (example_row 50) 0 565 625]))
       @ entry_fragments (lit ''12mm'') (lit ''48mm'') lunch_break
       @ (concat (map (entry_fragments (lit ''12mm'') (lit ''48mm'')) [coffee_break])
          @ [last (latex_lines [] (lit ''12mm'') (lit ''48mm''))])"
    by simp
  note depth = ln[THEN conjunct2, THEN conjunct2, THEN conjunct2, THEN conjunct1]
  from ln[THEN conjunct2, THEN conjunct2, THEN conjunct2, THEN conjunct2, THEN conjunct2,
      THEN conjunct2, THEN conjunct2] n
  have gen: "generate_jdd_latex (\<lambda>f. True) Map.empty [lunch_break] (lit ''12mm'') (lit ''48mm'')
        (Some (lit ''jdd_schedule.tex'')) =
       Inr ([lit ''jdd_schedule.tex'' \<mapsto> full_tex [lunch_break] (lit ''12mm'') (lit ''48mm'')],
            full_tex [lunch_break] (lit ''12mm'') (lit ''48mm''))"
    by blast
  from old split depth gen show ?thesis by blast
qed

section \<open>The kind of an entry is read off its speaker\<close>




section \<open>Scheduling and rendering depend on their arguments only\<close>










end
